theory Spec2Isabelle
  imports Main "HOL-Library.Word" "HOL-Library.Multiset"
begin

section \<open>Failures\<close>

text \<open>
  Every way in which the C++ code leaves a function other than by returning is a value of
  \<open>error\<close>: an exception of the inference engine (\<open>IE_THROW\<close>, \<open>throwIEException\<close>), a
  violated \<open>Expects\<close>/\<open>Ensures\<close> contract, an access outside a container or a host
  buffer (undefined behaviour in C++, made explicit here), the \<open>std::length_error\<close>
  of \<open>std::vector::resize\<close>, and a vendor call that does not report success
  (\<open>throwIfError\<close>).
\<close>

datatype error =
    IEException string
  | ContractViolation
  | OutOfRange
  | LengthError
  | CudnnError

text \<open>
  \<open>and_then m f\<close> runs \<open>f\<close> on the result of \<open>m\<close> unless \<open>m\<close> failed: the sequencing of
  two statements of which the first may raise.
\<close>

definition and_then :: "error + 'a \<Rightarrow> ('a \<Rightarrow> error + 'b) \<Rightarrow> error + 'b" where
  "and_then m f = (case m of Inl e \<Rightarrow> Inl e | Inr x \<Rightarrow> f x)"

section \<open>The ConvertLayout graph rewrite (ARM plugin)\<close>

subsection \<open>Graph nodes\<close>

datatype element_Type = bf16 | f16 | f32 | f64 | i8 | i16 | i32 | i64 | u8 | u16 | u32 | u64

datatype PadType = EXPLICIT | SAME_LOWER | SAME_UPPER | VALID | AUTO | NOTSET

record conv_attributes =
  strides :: "nat list"
  pads_begin :: "int list"
  pads_end :: "int list"
  dilations :: "nat list"
  auto_pad :: PadType

text \<open>
  The part of the host graph the pass reads and builds. \<open>Parameter\<close> stands for any node
  the pass does not look into. \<open>Constant t shape values\<close> is
  \<open>Constant::create(t, shape, values)\<close>, \<open>Transpose x order\<close> the transposition of \<open>x\<close> by
  the node \<open>order\<close>, and \<open>ArmConvolution inputs attrs name\<close> a convolution with its input
  values in order (activations, weights and, when present, bias), its attributes and its
  friendly name.
\<close>

datatype node =
    Parameter string
  | Constant element_Type "nat list" "int list"
  | Transpose node node
  | ArmConvolution "node list" conv_attributes string

subsection \<open>The permutations\<close>

definition nchw_to_nhwc :: "int list" where
  "nchw_to_nhwc = [0, 2, 3, 1]"

definition nhwc_to_nchw :: "int list" where
  "nhwc_to_nchw = [0, 3, 1, 2]"

definition ncdhw_to_ndhwc :: "int list" where
  "ncdhw_to_ndhwc = [0, 2, 3, 4, 1]"

definition ndhwc_to_ncdhw :: "int list" where
  "ndhwc_to_ncdhw = [0, 4, 1, 2, 3]"

subsection \<open>The two transposition builders\<close>

definition transpose_on_input :: "node \<Rightarrow> nat \<Rightarrow> error + node" where
  "transpose_on_input input rank =
     (if rank = 4 then
        Inr (Transpose input (Constant i32 [length nchw_to_nhwc] nchw_to_nhwc))
      else if rank = 5 then
        Inr (Transpose input (Constant i32 [length ncdhw_to_ndhwc] ncdhw_to_ndhwc))
      else Inl (IEException ''ConvertLayout: unsupported rank''))"

definition transpose_on_output :: "node \<Rightarrow> nat \<Rightarrow> error + node" where
  "transpose_on_output input rank =
     (if rank = 4 then
        Inr (Transpose input (Constant i32 [length nhwc_to_nchw] nhwc_to_nchw))
      else if rank = 5 then
        Inr (Transpose input (Constant i32 [length ndhwc_to_ncdhw] ndhwc_to_ncdhw))
      else Inl (IEException ''ConvertLayout: unsupported rank''))"

subsection \<open>The matcher callback\<close>

text \<open>
  \<open>conv->input_value(i)\<close>: the host graph raises when the node has no input \<open>i\<close>.
\<close>

definition input_value :: "node list \<Rightarrow> nat \<Rightarrow> error + node" where
  "input_value inputs i = (if i < length inputs then Inr (inputs ! i) else Inl OutOfRange)"

text \<open>
  The callback of the matcher pass, given the rank that
  \<open>conv->get_output_partial_shape(0).size()\<close> returns. The result \<open>Inr None\<close> is
  \<open>return false\<close> (nothing changed), \<open>Inr (Some t)\<close> is \<open>return true\<close> after
  \<open>replace_node(conv, t)\<close>, and \<open>Inl e\<close> an exception that leaves the callback. The copy of
  the run-time information onto the new nodes is an effect inside the host graph and has no
  part in the structure built here.
\<close>

definition callback :: "nat \<Rightarrow> node \<Rightarrow> error + node option" where
  "callback rank node =
     (case node of
        ArmConvolution inputs attrs name \<Rightarrow>
          and_then (input_value inputs 0) (\<lambda>in0.
          and_then (transpose_on_input in0 rank) (\<lambda>activations_transpose.
          and_then (input_value inputs 1) (\<lambda>in1.
          and_then (transpose_on_input in1 rank) (\<lambda>weights_transpose.
          and_then
            (if length inputs > 2 then
               and_then (input_value inputs 2) (\<lambda>in2.
                 Inr (ArmConvolution [activations_transpose, weights_transpose, in2]
                        \<lparr>strides = strides attrs, pads_begin = pads_begin attrs,
                         pads_end = pads_end attrs, dilations = dilations attrs,
                         auto_pad = auto_pad attrs\<rparr> name))
             else
               Inr (ArmConvolution [activations_transpose, weights_transpose]
                      \<lparr>strides = strides attrs, pads_begin = pads_begin attrs,
                       pads_end = pads_end attrs, dilations = dilations attrs,
                       auto_pad = auto_pad attrs\<rparr> name))
            (\<lambda>new_conv.
          and_then (transpose_on_output new_conv rank) (\<lambda>transpose_node.
          Inr (Some transpose_node)))))))
      | _ \<Rightarrow> Inr None)"

text \<open>
  The pass on one node: the pattern \<open>wrap_type<ArmConvolution>(has_static_rank())\<close>
  matches a convolution whose output has a static rank. The shape of a node belongs to the
  host graph, so the rank of the output is a parameter: \<open>output_rank n\<close> is \<open>Some r\<close> for
  a static rank \<open>r\<close> and \<open>None\<close> for a dynamic one.
\<close>

definition ConvertArmConvolutionLayout :: "(node \<Rightarrow> nat option) \<Rightarrow> node \<Rightarrow> error + node option" where
  "ConvertArmConvolutionLayout output_rank node =
     (case node of
        ArmConvolution inputs attrs name \<Rightarrow>
          (case output_rank node of
             None \<Rightarrow> Inr None
           | Some rank \<Rightarrow> callback rank node)
      | _ \<Rightarrow> Inr None)"

subsection \<open>What a transposition does to the axes\<close>

text \<open>
  A transposition by \<open>order\<close> puts axis \<open>order[i]\<close> of its input at position \<open>i\<close> of its
  output. \<open>permute order xs\<close> does this to the list \<open>xs\<close> of the axes (or of the
  dimensions) of the input; \<open>compose_order p q\<close> is the single order that does what a
  transposition by \<open>p\<close> followed by one by \<open>q\<close> does.
\<close>

definition permute :: "int list \<Rightarrow> 'a list \<Rightarrow> 'a list" where
  "permute order xs = map (\<lambda>k. xs ! nat k) order"

definition compose_order :: "int list \<Rightarrow> int list \<Rightarrow> int list" where
  "compose_order p q = map (\<lambda>k. p ! nat k) q"

text \<open>The order operand of a transposition node.\<close>

fun order_of :: "node \<Rightarrow> int list" where
  "order_of (Transpose x (Constant t shape values)) = values"
| "order_of n = []"

section \<open>The GRU sequence descriptors (CUDA plugin)\<close>

subsection \<open>Vendor enumerations\<close>

datatype cudnnDataType_t =
    CUDNN_DATA_FLOAT | CUDNN_DATA_DOUBLE | CUDNN_DATA_HALF | CUDNN_DATA_INT8
  | CUDNN_DATA_INT32 | CUDNN_DATA_INT8x4 | CUDNN_DATA_UINT8 | CUDNN_DATA_UINT8x4
  | CUDNN_DATA_INT8x32 | CUDNN_DATA_BFLOAT16 | CUDNN_DATA_INT64

datatype cudaDataType_t =
    CUDA_R_16F | CUDA_R_32F | CUDA_R_64F | CUDA_R_8I | CUDA_R_8U | CUDA_R_32I | CUDA_R_16BF

datatype cudnnDirectionMode_t = CUDNN_UNIDIRECTIONAL | CUDNN_BIDIRECTIONAL

datatype cudnnRNNAlgo_t =
  CUDNN_RNN_ALGO_STANDARD | CUDNN_RNN_ALGO_PERSIST_STATIC | CUDNN_RNN_ALGO_PERSIST_DYNAMIC

datatype cudnnRNNMode_t = CUDNN_RNN_RELU | CUDNN_RNN_TANH | CUDNN_LSTM | CUDNN_GRU

datatype cudnnRNNBiasMode_t =
  CUDNN_RNN_NO_BIAS | CUDNN_RNN_SINGLE_INP_BIAS | CUDNN_RNN_DOUBLE_BIAS | CUDNN_RNN_SINGLE_REC_BIAS

datatype cudnnRNNInputMode_t = CUDNN_LINEAR_INPUT | CUDNN_SKIP_INPUT

datatype cudnnMathType_t =
    CUDNN_DEFAULT_MATH | CUDNN_TENSOR_OP_MATH | CUDNN_TENSOR_OP_MATH_ALLOW_CONVERSION
  | CUDNN_FMA_MATH

datatype cudnnRNNDataLayout_t =
    CUDNN_RNN_DATA_LAYOUT_SEQ_MAJOR_UNPACKED
  | CUDNN_RNN_DATA_LAYOUT_SEQ_MAJOR_PACKED
  | CUDNN_RNN_DATA_LAYOUT_BATCH_MAJOR_UNPACKED

datatype cudnnDropoutDescriptor_t = DropoutDescriptor nat

text \<open>
  Modelled from the spec: the vendor header that defines the auxiliary flags is not among
  the sources. The padded-IO flag of which the spec speaks is bit 0 of the auxiliary
  flags, \<open>1U << 0\<close> in the vendor header, and no flag is 0.
\<close>

definition CUDNN_RNN_PADDED_IO_DISABLED :: "32 word" where
  "CUDNN_RNN_PADDED_IO_DISABLED = 0"

definition CUDNN_RNN_PADDED_IO_ENABLED :: "32 word" where
  "CUDNN_RNN_PADDED_IO_ENABLED = push_bit 0 1"

subsection \<open>Machine numbers\<close>

type_synonym byte = "8 word"

text \<open>
  \<open>static_cast<int32_t>\<close> of a \<open>size_t\<close> keeps the low 32 bits, read as two's complement.
  An \<open>int\<close> that meets a \<open>size_t\<close> in an expression is converted to \<open>size_t\<close> (64 bits),
  and \<open>size_t\<close> arithmetic wraps around.
\<close>

definition to_int32 :: "nat \<Rightarrow> int" where
  "to_int32 n = sint (word_of_nat n :: 32 word)"

definition to_size_t :: "int \<Rightarrow> nat" where
  "to_size_t x = nat (x mod 2 ^ 64)"

definition size_t_mul :: "nat \<Rightarrow> nat \<Rightarrow> nat" where
  "size_t_mul a b = (a * b) mod 2 ^ 64"

definition size_t_add :: "nat \<Rightarrow> nat \<Rightarrow> nat" where
  "size_t_add a b = (a + b) mod 2 ^ 64"

text \<open>
  The clip value is a single-precision number. The constructor only compares it with zero
  and asks whether it is infinite, so a number is a finite value \<open>m * 2 ^ e\<close> (both zeros
  are \<open>m = 0\<close>), an infinity with its sign, or a NaN.
\<close>

datatype float32 = Finite int int | Infinity bool | NaN

text \<open>\<open>x != 0.0f\<close>: a comparison with a NaN is unordered, so \<open>!=\<close> holds for it.\<close>

fun ne_zero :: "float32 \<Rightarrow> bool" where
  "ne_zero (Finite m e) = (m \<noteq> 0)"
| "ne_zero (Infinity s) = True"
| "ne_zero NaN = True"

fun isinf :: "float32 \<Rightarrow> bool" where
  "isinf (Infinity s) = True"
| "isinf x = False"

fun isfinite :: "float32 \<Rightarrow> bool" where
  "isfinite (Finite m e) = True"
| "isfinite x = False"

subsection \<open>Parameters\<close>

datatype RecurrentSequenceDirection = FORWARD | REVERSE | BIDIRECTIONAL

text \<open>
  \<open>GRUSequenceParams\<close>, the parameters as the operation has them. The fields carry the
  prefix \<open>gru\<close> to tell them from those of \<open>GRUSequenceParamsCuDnn\<close> below. Sizes are
  \<open>size_t\<close> values, host buffers are spans of bytes.
\<close>

record GRUSequenceParams =
  gru_element_type :: element_Type
  gru_direction :: RecurrentSequenceDirection
  gru_activations :: "string list"
  gru_clip :: float32
  gru_linear_before_reset :: bool
  gru_batch_size :: nat
  gru_max_seq_length :: nat
  gru_input_size :: nat
  gru_hidden_size :: nat
  gru_w_host_buffers :: "byte list"
  gru_r_host_buffers :: "byte list"
  gru_b_host_buffers :: "byte list"

record GRUSequenceParamsCuDnn =
  element_type :: cudnnDataType_t
  element_type_cuda :: cudaDataType_t
  element_size :: nat
  direction :: cudnnDirectionMode_t
  linear_before_reset :: bool
  batch_size :: int
  max_seq_length :: int
  input_size :: int
  hidden_size :: int
  w_host_buffers :: "byte list"
  r_host_buffers :: "byte list"
  b_host_buffers :: "byte list"
  seq_length_array :: "int list"

text \<open>
  The conversions of \<open>converters.hpp\<close> are not among the sources at hand, so they are
  parameters of the model. Each may raise for an element type it does not know.
\<close>

record converters =
  convertDataType_cudnn :: "element_Type \<Rightarrow> error + cudnnDataType_t"
  convertDataType_cuda :: "element_Type \<Rightarrow> error + cudaDataType_t"
  elementSize :: "cudnnDataType_t \<Rightarrow> error + nat"

text \<open>
  Modelled from the spec: the header that declares \<open>lin_layer_count\<close>, \<open>numDirections()\<close>
  and \<open>projSize()\<close> is not among the sources. A GRU has three gates, which the code and
  the spec number 0, 1 and 2; a unidirectional network has one pseudo-layer and a
  bidirectional one two; a network without projection has the hidden size as its
  projection size.
\<close>

definition lin_layer_count :: nat where
  "lin_layer_count = 3"

definition numDirections :: "GRUSequenceParamsCuDnn \<Rightarrow> int" where
  "numDirections p = (if direction p = CUDNN_UNIDIRECTIONAL then 1 else 2)"

definition projSize :: "GRUSequenceParamsCuDnn \<Rightarrow> int" where
  "projSize p = hidden_size p"

text \<open>
  \<open>std::vector<int>::resize(n, v)\<close> with an \<open>int\<close> count: the count becomes a
  \<open>size_t\<close>, and a count above \<open>max_size()\<close> (here that of a 64-bit platform with 4-byte
  elements) raises \<open>std::length_error\<close>.
\<close>

definition vector_max_size :: nat where
  "vector_max_size = 2 ^ 61 - 1"

definition vector_resize :: "int list \<Rightarrow> int \<Rightarrow> int \<Rightarrow> error + int list" where
  "vector_resize xs n v =
     (let count = to_size_t n in
      if count > vector_max_size then Inl LengthError
      else Inr (take count xs @ replicate (count - length xs) v))"

definition supported_activations :: "string list" where
  "supported_activations = [''sigmoid'', ''tanh'']"

definition GRUSequenceParamsCuDnn_ctor ::
  "converters \<Rightarrow> GRUSequenceParams \<Rightarrow> error + GRUSequenceParamsCuDnn" where
  "GRUSequenceParamsCuDnn_ctor cv params =
     and_then (convertDataType_cudnn cv (gru_element_type params)) (\<lambda>cudnn_type.
     and_then (convertDataType_cuda cv (gru_element_type params)) (\<lambda>cuda_type.
     and_then (elementSize cv cudnn_type) (\<lambda>size_of_element.
     let this = \<lparr>
            element_type = cudnn_type,
            element_type_cuda = cuda_type,
            element_size = size_of_element,
            direction = CUDNN_UNIDIRECTIONAL,
            linear_before_reset = gru_linear_before_reset params,
            batch_size = to_int32 (gru_batch_size params),
            max_seq_length = to_int32 (gru_max_seq_length params),
            input_size = to_int32 (gru_input_size params),
            hidden_size = to_int32 (gru_hidden_size params),
            w_host_buffers = gru_w_host_buffers params,
            r_host_buffers = gru_r_host_buffers params,
            b_host_buffers = gru_b_host_buffers params,
            seq_length_array = [] \<rparr>;
         is_clipped = (ne_zero (gru_clip params) \<and> \<not> isinf (gru_clip params))
     in
     if gru_direction params = REVERSE then
       Inl (IEException ''Currently GRUSequence cuDNN implementation doesn't support REVERSE direction'')
     else if gru_direction params = BIDIRECTIONAL then
       Inl (IEException ''Currently GRUSequence cuDNN implementation doesn't support BIDIRECTIONAL direction'')
     else if input_size this = 1 \<and> hidden_size this = 1 then
       Inl (IEException ''Currently GRUSequence cuDNN implementation doesn't support combination of input_size == 1 and hidden_size == 1 simultaneously'')
     else if gru_activations params \<noteq> supported_activations then
       Inl (IEException ''Currently GRUSequence cuDNN implementation supports only sigmoid, tanh'')
     else if is_clipped then
       Inl (IEException ''Currently GRUSequence cuDNN implementation doesn't support clipping'')
     else
       and_then (vector_resize (seq_length_array this) (batch_size this) (max_seq_length this))
         (\<lambda>v. Inr (this\<lparr>seq_length_array := v\<rparr>)))))"

subsection \<open>The RNN descriptor\<close>

record Config =
  rnn_data_layout :: cudnnRNNDataLayout_t

text \<open>
  Of the creation context the code reads the device, and of the device only what
  \<open>CUDA::isHalfSupported\<close> answers for it.
\<close>

record Device =
  isHalfSupported :: bool

record CreationContext =
  device :: Device

text \<open>The arguments that \<open>rnn_desc_.set\<close> passes to the vendor, in its order.\<close>

record RNNDescriptor =
  algo :: cudnnRNNAlgo_t
  cellMode :: cudnnRNNMode_t
  biasMode :: cudnnRNNBiasMode_t
  dirMode :: cudnnDirectionMode_t
  inputMode :: cudnnRNNInputMode_t
  dataType :: cudnnDataType_t
  mathPrec :: cudnnDataType_t
  mathType :: cudnnMathType_t
  inputSize :: int
  hiddenSize :: int
  projSize_arg :: int
  numLayers :: int
  dropoutDesc :: "cudnnDropoutDescriptor_t option"
  auxFlags :: "32 word"

definition createRNNDescriptor ::
  "GRUSequenceParamsCuDnn \<Rightarrow> Config \<Rightarrow> CreationContext \<Rightarrow> RNNDescriptor" where
  "createRNNDescriptor params config context =
     (let rnn_algo = CUDNN_RNN_ALGO_STANDARD;
          rnn_mode = CUDNN_GRU;
          bias_mode = (if linear_before_reset params then CUDNN_RNN_DOUBLE_BIAS
                       else CUDNN_RNN_SINGLE_INP_BIAS);
          input_mode = CUDNN_LINEAR_INPUT;
          can_use_half = (element_type params = CUDNN_DATA_HALF
                          \<and> isHalfSupported (device context));
          math_prec = (if element_type params = CUDNN_DATA_DOUBLE \<or> can_use_half
                       then element_type params else CUDNN_DATA_FLOAT);
          numLayers = 1;
          math_type = (if element_type params = CUDNN_DATA_DOUBLE
                          \<or> element_type params = CUDNN_DATA_FLOAT
                       then CUDNN_DEFAULT_MATH else CUDNN_TENSOR_OP_MATH);
          drop_out_desc = None;
          aux_flags = (if rnn_data_layout config = CUDNN_RNN_DATA_LAYOUT_SEQ_MAJOR_PACKED
                       then 0 else CUDNN_RNN_PADDED_IO_ENABLED)
      in \<lparr> algo = rnn_algo, cellMode = rnn_mode, biasMode = bias_mode,
           dirMode = direction params, inputMode = input_mode,
           dataType = element_type params, mathPrec = math_prec, mathType = math_type,
           inputSize = input_size params, hiddenSize = hidden_size params,
           projSize_arg = projSize params, numLayers = numLayers,
           dropoutDesc = drop_out_desc, auxFlags = aux_flags \<rparr>)"

text \<open>Whether the padded-IO flag is set in the auxiliary flags of a descriptor.\<close>

definition padded_io_enabled :: "RNNDescriptor \<Rightarrow> bool" where
  "padded_io_enabled d = (and (auxFlags d) CUDNN_RNN_PADDED_IO_ENABLED \<noteq> 0)"

subsection \<open>Device buffers and the weight space\<close>

text \<open>
  A device buffer is a span of bytes in device memory: the address of its first byte and
  its size in bytes. Addresses are natural numbers, the null pointer is 0, and pointer
  arithmetic does not wrap (an address past the end of the address space is undefined
  behaviour in C++ and does not occur here).
\<close>

type_synonym DevBuffer = "nat \<times> nat"

abbreviation data :: "DevBuffer \<Rightarrow> nat" where
  "data b \<equiv> fst b"

abbreviation size_bytes :: "DevBuffer \<Rightarrow> nat" where
  "size_bytes b \<equiv> snd b"

record GRUSequenceDescriptorsCuDnn =
  params :: GRUSequenceParamsCuDnn
  config :: Config
  rnn_desc :: RNNDescriptor
  weight_space_size :: nat
  w_dev_buffers :: "DevBuffer list"
  r_dev_buffers :: "DevBuffer list"
  b1_dev_buffers :: "DevBuffer list"
  b2_dev_buffers :: "DevBuffer list"

definition weightSpaceSize :: "GRUSequenceDescriptorsCuDnn \<Rightarrow> nat" where
  "weightSpaceSize this = weight_space_size this"

text \<open>\<open>Expects\<close> and \<open>Ensures\<close> end the program when their condition is false.\<close>

definition Expects :: "bool \<Rightarrow> error + unit" where
  "Expects c = (if c then Inr () else Inl ContractViolation)"

definition Ensures :: "bool \<Rightarrow> error + unit" where
  "Ensures c = (if c then Inr () else Inl ContractViolation)"

definition throwIfError :: "bool \<Rightarrow> error + unit" where
  "throwIfError success = (if success then Inr () else Inl CudnnError)"

text \<open>\<open>v[i]\<close> on a \<open>std::vector\<close>: outside the vector it is undefined behaviour.\<close>

definition at_index :: "'a list \<Rightarrow> nat \<Rightarrow> error + 'a" where
  "at_index v i = (if i < length v then Inr (v ! i) else Inl OutOfRange)"

text \<open>A \<open>for\<close> loop over the indices \<open>is\<close> whose body may fail.\<close>

fun for_each :: "'i list \<Rightarrow> ('i \<Rightarrow> 's \<Rightarrow> error + 's) \<Rightarrow> 's \<Rightarrow> error + 's" where
  "for_each [] body s = Inr s"
| "for_each (i # is) body s = and_then (body i s) (for_each is body)"

subsection \<open>weightBuffersFit\<close>

text \<open>The last loop of \<open>weightBuffersFit\<close>, from index \<open>i\<close> on.\<close>

function fit_loop :: "DevBuffer list \<Rightarrow> nat \<Rightarrow> bool" where
  "fit_loop all_weights i =
     (if i < length all_weights then
        (if data (all_weights ! (i - 1)) + size_bytes (all_weights ! (i - 1))
              > data (all_weights ! i)
         then False
         else fit_loop all_weights (i + 1))
      else True)"
  by pat_completeness auto
termination
  by (relation "measure (\<lambda>(all_weights, i). length all_weights - i)") auto

declare fit_loop.simps [simp del]

text \<open>The test of the loop on two neighbours: the first ends before the second starts.\<close>

definition ends_before :: "DevBuffer \<Rightarrow> DevBuffer \<Rightarrow> bool" where
  "ends_before a b = (data a + size_bytes a \<le> data b)"

text \<open>
  \<open>std::sort\<close> by the start address is \<open>sort_key data\<close>; elements of equal address keep
  their order, as they do in the insertion sort that the library runs on short ranges.
  What holds for every other order that the sort may produce is stated with \<open>fit_checks\<close>
  below.
\<close>

definition weightBuffersFit :: "GRUSequenceDescriptorsCuDnn \<Rightarrow> nat \<Rightarrow> error + bool" where
  "weightBuffersFit this buffer =
     and_then (Expects (buffer \<noteq> 0)) (\<lambda>_.
       let all_weights = sort_key data
             (w_dev_buffers this @ r_dev_buffers this @ b1_dev_buffers this @ b2_dev_buffers this);
           size = length all_weights
       in
       and_then (at_index all_weights 0) (\<lambda>first.
         if data first < buffer then Inr False
         else
           and_then (at_index all_weights (size - 1)) (\<lambda>last.
             if data last + size_bytes last > buffer + weightSpaceSize this then Inr False
             else Inr (fit_loop all_weights 1))))"

text \<open>
  \<open>std::sort\<close> promises a permutation in ascending order of the start address and leaves
  the order of buffers of equal address open. \<open>fit_checks\<close> is what \<open>weightBuffersFit\<close>
  does after the sort, on any order \<open>all_weights\<close> of the buffers that the sort may have
  produced, with \<open>n\<close> the size of the weight space.
\<close>

definition fit_checks :: "DevBuffer list \<Rightarrow> nat \<Rightarrow> nat \<Rightarrow> error + bool" where
  "fit_checks all_weights buffer n =
     and_then (at_index all_weights 0) (\<lambda>first.
       if data first < buffer then Inr False
       else
         and_then (at_index all_weights (length all_weights - 1)) (\<lambda>last.
           if data last + size_bytes last > buffer + n then Inr False
           else Inr (fit_loop all_weights 1)))"

text \<open>What the claims say of buffers: the addresses a buffer occupies.\<close>

definition region :: "DevBuffer \<Rightarrow> nat set" where
  "region b = {data b ..< data b + size_bytes b}"

definition lies_inside :: "DevBuffer \<Rightarrow> nat \<Rightarrow> nat \<Rightarrow> bool" where
  "lies_inside b buffer n = (region b \<subseteq> {buffer ..< buffer + n})"

definition overlap :: "DevBuffer \<Rightarrow> DevBuffer \<Rightarrow> bool" where
  "overlap a b = (region a \<inter> region b \<noteq> {})"

definition all_weights_of :: "GRUSequenceDescriptorsCuDnn \<Rightarrow> DevBuffer list" where
  "all_weights_of this =
     w_dev_buffers this @ r_dev_buffers this @ b1_dev_buffers this @ b2_dev_buffers this"

subsection \<open>calculateWeightBuffers\<close>

record TensorDescriptor =
  td_dataType :: cudnnDataType_t
  td_nbDims :: int
  td_dimA :: "int list"
  td_strideA :: "int list"
  td_sizeInBytes :: nat

text \<open>
  What \<open>cudnnGetRNNWeightParams\<close> answers: whether it succeeded, and the descriptor and
  address of the weight matrix and of the bias of the linear layer asked for. The vendor
  call is a parameter of the model, a function of the RNN descriptor, the pseudo-layer,
  the size and address of the weight space and the linear layer.
\<close>

record WeightParams =
  status_success :: bool
  mDesc :: TensorDescriptor
  mAddr :: nat
  bDesc :: TensorDescriptor
  bAddr :: nat

type_synonym cudnnGetRNNWeightParams =
  "RNNDescriptor \<Rightarrow> int \<Rightarrow> nat \<Rightarrow> nat \<Rightarrow> int \<Rightarrow> WeightParams"

text \<open>
  \<open>getTensorNdDescriptor\<close> with three dimensions requested, followed by the \<open>Ensures\<close> on
  the number of dimensions, the data type, the dimensions and the strides.
\<close>

definition ensures_descriptor ::
  "TensorDescriptor \<Rightarrow> cudnnDataType_t \<Rightarrow> int list \<Rightarrow> int list \<Rightarrow> error + unit" where
  "ensures_descriptor d data_type dim_a stride_a =
     and_then (Ensures (td_nbDims d = 3)) (\<lambda>_.
     and_then (Ensures (td_dataType d = data_type)) (\<lambda>_.
     and_then (Ensures (take 3 (td_dimA d) = dim_a)) (\<lambda>_.
     Ensures (take 3 (td_strideA d) = stride_a))))"

text \<open>
  The state of the two nested loops: the object and the four running totals. The body
  for pseudo-layer \<open>pseudo_layer\<close> and linear layer \<open>i\<close>, given the size of an element:
\<close>

type_synonym calc_state = "GRUSequenceDescriptorsCuDnn \<times> nat \<times> nat \<times> nat \<times> nat"

definition calc_body ::
  "nat \<Rightarrow> cudnnGetRNNWeightParams \<Rightarrow> nat \<Rightarrow> int \<Rightarrow> nat \<Rightarrow> calc_state \<Rightarrow> error + calc_state" where
  "calc_body element_sz vendor weight_space pseudo_layer i st =
     (case st of (this, w_total_bytes, r_total_bytes, b1_total_bytes, b2_total_bytes) \<Rightarrow>
      let data_type = element_type (params this);
          input_sz = input_size (params this);
          hidden_sz = hidden_size (params this);
          wb = vendor (rnn_desc this) pseudo_layer (weight_space_size this) weight_space (int i);
          rb = vendor (rnn_desc this) pseudo_layer (weight_space_size this) weight_space
                 (int (i + lin_layer_count))
      in
      and_then (throwIfError (status_success wb)) (\<lambda>_.
      and_then (Ensures (mAddr wb \<noteq> 0)) (\<lambda>_.
      and_then (ensures_descriptor (mDesc wb) data_type
                  [1, hidden_sz, input_sz] [hidden_sz * input_sz, input_sz, 1]) (\<lambda>_.
      and_then (Ensures (td_sizeInBytes (mDesc wb)
                  \<ge> size_t_mul (to_size_t (hidden_sz * input_sz)) element_sz)) (\<lambda>_.
      and_then (Ensures (bAddr wb \<noteq> 0)) (\<lambda>_.
      and_then (ensures_descriptor (bDesc wb) data_type
                  [1, hidden_sz, 1] [hidden_sz, 1, 1]) (\<lambda>_.
      and_then (Ensures (td_sizeInBytes (bDesc wb)
                  \<ge> size_t_mul (to_size_t hidden_sz) element_sz)) (\<lambda>_.
      and_then (throwIfError (status_success rb)) (\<lambda>_.
      and_then (Ensures (mAddr rb \<noteq> 0)) (\<lambda>_.
      and_then (ensures_descriptor (mDesc rb) data_type
                  [1, hidden_sz, hidden_sz] [hidden_sz * hidden_sz, hidden_sz, 1]) (\<lambda>_.
      and_then (Ensures (td_sizeInBytes (mDesc rb)
                  \<ge> size_t_mul (to_size_t (hidden_sz * hidden_sz)) element_sz)) (\<lambda>_.
      Inr (this\<lparr> w_dev_buffers := w_dev_buffers this @ [(mAddr wb, td_sizeInBytes (mDesc wb))],
                 b1_dev_buffers := b1_dev_buffers this @ [(bAddr wb, td_sizeInBytes (bDesc wb))],
                 r_dev_buffers := r_dev_buffers this @ [(mAddr rb, td_sizeInBytes (mDesc rb))],
                 b2_dev_buffers :=
                   (if bAddr rb \<noteq> 0
                    then b2_dev_buffers this @ [(bAddr rb, td_sizeInBytes (bDesc rb))]
                    else b2_dev_buffers this) \<rparr>,
           size_t_add w_total_bytes (td_sizeInBytes (mDesc wb)),
           size_t_add r_total_bytes (td_sizeInBytes (mDesc rb)),
           size_t_add b1_total_bytes (td_sizeInBytes (bDesc wb)),
           (if bAddr rb \<noteq> 0 then size_t_add b2_total_bytes (td_sizeInBytes (bDesc rb))
            else b2_total_bytes))))))))))))))"

definition calculateWeightBuffers ::
  "converters \<Rightarrow> cudnnGetRNNWeightParams \<Rightarrow> GRUSequenceDescriptorsCuDnn \<Rightarrow> nat
    \<Rightarrow> error + GRUSequenceDescriptorsCuDnn" where
  "calculateWeightBuffers cv vendor this0 buffer =
     and_then (Expects (buffer \<noteq> 0)) (\<lambda>_.
     and_then (elementSize cv (element_type (params this0))) (\<lambda>element_sz.
     let cleared = this0\<lparr> w_dev_buffers := [], r_dev_buffers := [],
                          b1_dev_buffers := [], b2_dev_buffers := [] \<rparr>;
         num_pseudo_layers = numDirections (params this0)
     in
     and_then (for_each (map int [0 ..< nat num_pseudo_layers])
                 (\<lambda>pseudo_layer. for_each [0 ..< lin_layer_count]
                    (calc_body element_sz vendor buffer pseudo_layer))
                 (cleared, 0, 0, 0, 0))
       (\<lambda>(this, w_total_bytes, r_total_bytes, b1_total_bytes, b2_total_bytes).
     and_then (weightBuffersFit this buffer) (\<lambda>fit.
     and_then (Ensures fit) (\<lambda>_.
     and_then (Ensures (weight_space_size this \<ge>
                 size_t_add (size_t_add (size_t_add w_total_bytes r_total_bytes) b1_total_bytes)
                   b2_total_bytes)) (\<lambda>_.
     and_then (Ensures (w_total_bytes \<ge> length (w_host_buffers (params this))
                        \<and> r_total_bytes \<ge> length (r_host_buffers (params this)))) (\<lambda>_.
     Inr this)))))))"

subsection \<open>initWeightSpace\<close>

text \<open>
  The default stream receives uploads (the device address and the bytes read from the
  host) and fills (the device address, the byte and the number of bytes).
\<close>

datatype stream_op = Upload nat "byte list" | Memset nat byte nat

text \<open>
  Reading \<open>n\<close> bytes of a host buffer from offset \<open>off\<close>; a read past the end of the
  buffer is undefined behaviour in C++.
\<close>

definition host_read :: "byte list \<Rightarrow> nat \<Rightarrow> nat \<Rightarrow> error + byte list" where
  "host_read buf off n =
     (if off + n \<le> length buf then Inr (take n (drop off buf)) else Inl OutOfRange)"

text \<open>The index of the device buffer for linear layer \<open>j\<close> of the host.\<close>

definition gate_swap :: "int \<Rightarrow> int" where
  "gate_swap j = (if j = 0 then 1 else (if j = 1 then 0 else j))"

text \<open>
  The state of the loop: the offsets of the three host pointers in their buffers (W, R and
  bias) and the operations sent to the stream so far.
\<close>

type_synonym init_state = "nat \<times> nat \<times> nat \<times> stream_op list"

definition init_body ::
  "GRUSequenceDescriptorsCuDnn \<Rightarrow> nat \<Rightarrow> nat \<Rightarrow> nat \<Rightarrow> nat \<Rightarrow> init_state \<Rightarrow> error + init_state" where
  "init_body this w_host_buffer_size r_host_buffer_size b1_host_layer_size i st =
     (case st of (w_host_addr, r_host_addr, b1_host_addr, stream) \<Rightarrow>
      let j = gate_swap (int i) in
      and_then (at_index (w_dev_buffers this) (nat j)) (\<lambda>w_dev.
      and_then (Expects (w_host_buffer_size = size_bytes w_dev)) (\<lambda>_.
      and_then (host_read (w_host_buffers (params this)) w_host_addr w_host_buffer_size) (\<lambda>w_bytes.
      and_then (at_index (b1_dev_buffers this) (nat j)) (\<lambda>b1_dev.
      and_then (Expects (b1_host_layer_size = size_bytes b1_dev)) (\<lambda>_.
      and_then (host_read (b_host_buffers (params this)) b1_host_addr b1_host_layer_size) (\<lambda>b1_bytes.
      and_then (at_index (r_dev_buffers this) (nat j)) (\<lambda>r_dev.
      and_then (Expects (r_host_buffer_size = size_bytes r_dev)) (\<lambda>_.
      and_then (host_read (r_host_buffers (params this)) r_host_addr r_host_buffer_size) (\<lambda>r_bytes.
      and_then
        (if i < length (b2_dev_buffers this) then
           and_then (at_index (b2_dev_buffers this) (nat j)) (\<lambda>b2_dev.
             if linear_before_reset (params this) \<and> j = 2 then
               (let offset = size_t_mul b1_host_layer_size (to_size_t (j + 1)) in
                and_then (Ensures (size_t_add offset b1_host_layer_size
                                    \<le> length (b_host_buffers (params this)))) (\<lambda>_.
                and_then (host_read (b_host_buffers (params this)) offset b1_host_layer_size)
                  (\<lambda>b2_bytes. Inr [Upload (data b2_dev) b2_bytes])))
             else Inr [Memset (data b2_dev) 0 (size_bytes b2_dev)])
         else Inr [])
        (\<lambda>b2_ops.
      Inr (w_host_addr + w_host_buffer_size,
           r_host_addr + r_host_buffer_size,
           b1_host_addr + b1_host_layer_size,
           stream @ [Upload (data w_dev) w_bytes, Upload (data b1_dev) b1_bytes,
                     Upload (data r_dev) r_bytes] @ b2_ops))))))))))))"

definition initWeightSpace ::
  "converters \<Rightarrow> cudnnGetRNNWeightParams \<Rightarrow> GRUSequenceDescriptorsCuDnn \<Rightarrow> nat
    \<Rightarrow> error + (GRUSequenceDescriptorsCuDnn \<times> stream_op list)" where
  "initWeightSpace cv vendor this0 buffer =
     and_then (calculateWeightBuffers cv vendor this0 buffer) (\<lambda>this.
     let num_pseudo_layers = numDirections (params this);
         dev_buffers_count = lin_layer_count * nat num_pseudo_layers;
         w_host_buffer_size = length (w_host_buffers (params this)) div dev_buffers_count;
         r_host_buffer_size = length (r_host_buffers (params this)) div dev_buffers_count;
         b1_host_layer_size = size_t_mul (to_size_t (hidden_size (params this)))
                                (element_size (params this))
     in
     and_then (for_each [0 ..< dev_buffers_count]
                 (init_body this w_host_buffer_size r_host_buffer_size b1_host_layer_size)
                 (0, 0, 0, []))
       (\<lambda>(w_host_addr, r_host_addr, b1_host_addr, stream). Inr (this, stream)))"

subsection \<open>Device memory\<close>

text \<open>What the operations of the stream do to device memory, in the order of the stream.\<close>

fun run_op :: "stream_op \<Rightarrow> (nat \<Rightarrow> byte) \<Rightarrow> (nat \<Rightarrow> byte)" where
  "run_op (Upload dst bytes) mem =
     (\<lambda>a. if dst \<le> a \<and> a < dst + length bytes then bytes ! (a - dst) else mem a)"
| "run_op (Memset dst v n) mem =
     (\<lambda>a. if dst \<le> a \<and> a < dst + n then v else mem a)"

definition run_stream :: "stream_op list \<Rightarrow> (nat \<Rightarrow> byte) \<Rightarrow> (nat \<Rightarrow> byte)" where
  "run_stream ops mem = foldl (\<lambda>m op. run_op op m) mem ops"

definition read_dev :: "(nat \<Rightarrow> byte) \<Rightarrow> DevBuffer \<Rightarrow> byte list" where
  "read_dev mem b = map mem [data b ..< data b + size_bytes b]"

text \<open>The \<open>k\<close>-th chunk of \<open>n\<close> bytes of a host buffer.\<close>

definition chunk :: "byte list \<Rightarrow> nat \<Rightarrow> nat \<Rightarrow> byte list" where
  "chunk buf n k = take n (drop (k * n) buf)"

subsection \<open>What initWeightSpace sends to the stream, in closed form\<close>

text \<open>The sizes of the chunks that \<open>initWeightSpace\<close> computes for a unidirectional network.\<close>

definition w_chunk_size :: "GRUSequenceParamsCuDnn \<Rightarrow> nat" where
  "w_chunk_size p = length (w_host_buffers p) div 3"

definition r_chunk_size :: "GRUSequenceParamsCuDnn \<Rightarrow> nat" where
  "r_chunk_size p = length (r_host_buffers p) div 3"

definition bias_chunk_size :: "GRUSequenceParamsCuDnn \<Rightarrow> nat" where
  "bias_chunk_size p = size_t_mul (to_size_t (hidden_size p)) (element_size p)"

text \<open>
  What iteration \<open>i\<close> of the loop sends for the second bias, and what it sends in all, for
  given sizes of the chunks.
\<close>

definition second_bias_ops :: "GRUSequenceDescriptorsCuDnn \<Rightarrow> nat \<Rightarrow> nat \<Rightarrow> stream_op list" where
  "second_bias_ops this b1_host_layer_size i =
     (let j = nat (gate_swap (int i)) in
      if i < length (b2_dev_buffers this) then
        (if linear_before_reset (params this) \<and> j = 2 then
           [Upload (data (b2_dev_buffers this ! j))
              (take b1_host_layer_size
                 (drop (size_t_mul b1_host_layer_size 3) (b_host_buffers (params this))))]
         else [Memset (data (b2_dev_buffers this ! j)) 0 (size_bytes (b2_dev_buffers this ! j))])
      else [])"

definition iteration_ops ::
  "GRUSequenceDescriptorsCuDnn \<Rightarrow> nat \<Rightarrow> nat \<Rightarrow> nat \<Rightarrow> nat \<Rightarrow> stream_op list" where
  "iteration_ops this w_size r_size b1_size i =
     (let j = nat (gate_swap (int i)) in
      [Upload (data (w_dev_buffers this ! j)) (chunk (w_host_buffers (params this)) w_size i),
       Upload (data (b1_dev_buffers this ! j)) (chunk (b_host_buffers (params this)) b1_size i),
       Upload (data (r_dev_buffers this ! j)) (chunk (r_host_buffers (params this)) r_size i)]
      @ second_bias_ops this b1_size i)"

text \<open>The device buffers that the operations of \<open>initWeightSpace\<close> write to, in the order of the stream.\<close>

definition written_buffers :: "GRUSequenceDescriptorsCuDnn \<Rightarrow> DevBuffer list" where
  "written_buffers this =
     concat (map (\<lambda>i. [w_dev_buffers this ! nat (gate_swap (int i)),
                        b1_dev_buffers this ! nat (gate_swap (int i)),
                        r_dev_buffers this ! nat (gate_swap (int i))]
                       @ (if i < length (b2_dev_buffers this)
                          then [b2_dev_buffers this ! nat (gate_swap (int i))] else []))
                 [0, 1, 2])"

text \<open>The bytes of device memory that an operation writes, and what it writes there.\<close>

fun op_region :: "stream_op \<Rightarrow> DevBuffer" where
  "op_region (Upload dst bytes) = (dst, length bytes)"
| "op_region (Memset dst v n) = (dst, n)"

fun op_bytes :: "stream_op \<Rightarrow> byte list" where
  "op_bytes (Upload dst bytes) = bytes"
| "op_bytes (Memset dst v n) = replicate n v"

section \<open>Concrete inputs\<close>

text \<open>
  Converters for the examples below: the element types with a vendor type of the same
  width, and the size in bytes of each.
\<close>

fun example_cudnn_type :: "element_Type \<Rightarrow> error + cudnnDataType_t" where
  "example_cudnn_type f16 = Inr CUDNN_DATA_HALF"
| "example_cudnn_type f32 = Inr CUDNN_DATA_FLOAT"
| "example_cudnn_type f64 = Inr CUDNN_DATA_DOUBLE"
| "example_cudnn_type bf16 = Inr CUDNN_DATA_BFLOAT16"
| "example_cudnn_type i8 = Inr CUDNN_DATA_INT8"
| "example_cudnn_type i32 = Inr CUDNN_DATA_INT32"
| "example_cudnn_type u8 = Inr CUDNN_DATA_UINT8"
| "example_cudnn_type t = Inl (IEException ''unsupported element type'')"

fun example_cuda_type :: "element_Type \<Rightarrow> error + cudaDataType_t" where
  "example_cuda_type f16 = Inr CUDA_R_16F"
| "example_cuda_type f32 = Inr CUDA_R_32F"
| "example_cuda_type f64 = Inr CUDA_R_64F"
| "example_cuda_type bf16 = Inr CUDA_R_16BF"
| "example_cuda_type i8 = Inr CUDA_R_8I"
| "example_cuda_type i32 = Inr CUDA_R_32I"
| "example_cuda_type u8 = Inr CUDA_R_8U"
| "example_cuda_type t = Inl (IEException ''unsupported element type'')"

fun example_element_size :: "cudnnDataType_t \<Rightarrow> error + nat" where
  "example_element_size CUDNN_DATA_HALF = Inr 2"
| "example_element_size CUDNN_DATA_FLOAT = Inr 4"
| "example_element_size CUDNN_DATA_DOUBLE = Inr 8"
| "example_element_size CUDNN_DATA_BFLOAT16 = Inr 2"
| "example_element_size CUDNN_DATA_INT8 = Inr 1"
| "example_element_size CUDNN_DATA_INT32 = Inr 4"
| "example_element_size CUDNN_DATA_UINT8 = Inr 1"
| "example_element_size t = Inl (IEException ''unsupported element type'')"

definition example_converters :: converters where
  "example_converters =
     \<lparr> convertDataType_cudnn = example_cudnn_type,
       convertDataType_cuda = example_cuda_type,
       elementSize = example_element_size \<rparr>"

text \<open>
  A GRU on half-precision numbers with two inputs and one hidden unit: each W matrix is 4
  bytes, each R matrix and each bias 2 bytes. The bytes of the host buffers are numbered
  so that every chunk can be told from the others.
\<close>

definition example_params :: GRUSequenceParams where
  "example_params =
     \<lparr> gru_element_type = f16,
       gru_direction = FORWARD,
       gru_activations = [''sigmoid'', ''tanh''],
       gru_clip = Finite 0 0,
       gru_linear_before_reset = True,
       gru_batch_size = 2,
       gru_max_seq_length = 5,
       gru_input_size = 2,
       gru_hidden_size = 1,
       gru_w_host_buffers = [1, 2, 3, 4, 5, 6, 7, 8, 9, 10, 11, 12],
       gru_r_host_buffers = [21, 22, 23, 24, 25, 26],
       gru_b_host_buffers = [31, 32, 33, 34, 35, 36, 37, 38] \<rparr>"

definition example_config :: Config where
  "example_config = \<lparr> rnn_data_layout = CUDNN_RNN_DATA_LAYOUT_SEQ_MAJOR_UNPACKED \<rparr>"

definition example_context :: CreationContext where
  "example_context = \<lparr> device = \<lparr> isHalfSupported = True \<rparr> \<rparr>"

text \<open>
  A vendor that lays the weight space out as three W matrices, three R matrices, three
  first biases and, in double-bias mode, three second biases.
\<close>

definition example_vendor :: cudnnGetRNNWeightParams where
  "example_vendor desc pseudo_layer weight_space_sz weight_space lin_layer_id =
     (if lin_layer_id < 3 then
        \<lparr> status_success = True,
          mDesc = \<lparr> td_dataType = dataType desc, td_nbDims = 3,
                    td_dimA = [1, hiddenSize desc, inputSize desc],
                    td_strideA = [hiddenSize desc * inputSize desc, inputSize desc, 1],
                    td_sizeInBytes = 4 \<rparr>,
          mAddr = weight_space + 4 * nat lin_layer_id,
          bDesc = \<lparr> td_dataType = dataType desc, td_nbDims = 3,
                    td_dimA = [1, hiddenSize desc, 1],
                    td_strideA = [hiddenSize desc, 1, 1],
                    td_sizeInBytes = 2 \<rparr>,
          bAddr = weight_space + 18 + 2 * nat lin_layer_id \<rparr>
      else
        \<lparr> status_success = True,
          mDesc = \<lparr> td_dataType = dataType desc, td_nbDims = 3,
                    td_dimA = [1, hiddenSize desc, hiddenSize desc],
                    td_strideA = [hiddenSize desc * hiddenSize desc, hiddenSize desc, 1],
                    td_sizeInBytes = 2 \<rparr>,
          mAddr = weight_space + 12 + 2 * nat (lin_layer_id - 3),
          bDesc = \<lparr> td_dataType = dataType desc, td_nbDims = 3,
                    td_dimA = [1, hiddenSize desc, 1],
                    td_strideA = [hiddenSize desc, 1, 1],
                    td_sizeInBytes = 2 \<rparr>,
          bAddr = (if biasMode desc = CUDNN_RNN_DOUBLE_BIAS
                   then weight_space + 24 + 2 * nat (lin_layer_id - 3) else 0) \<rparr>)"

text \<open>
  The object as its constructor leaves it for parameters \<open>p\<close>: the RNN descriptor
  created, the size of the weight space as the vendor reports it, no device buffer yet.
\<close>

definition descriptors_of ::
  "GRUSequenceParamsCuDnn \<Rightarrow> Config \<Rightarrow> CreationContext \<Rightarrow> nat \<Rightarrow> GRUSequenceDescriptorsCuDnn" where
  "descriptors_of p cfg context weight_space_sz =
     \<lparr> params = p, config = cfg, rnn_desc = createRNNDescriptor p cfg context,
       weight_space_size = weight_space_sz,
       w_dev_buffers = [], r_dev_buffers = [], b1_dev_buffers = [], b2_dev_buffers = [] \<rparr>"

text \<open>The example parameters with a clip value that is not a number.\<close>

definition nan_clip_params :: GRUSequenceParams where
  "nan_clip_params = example_params\<lparr>gru_clip := NaN\<rparr>"

text \<open>What the constructor makes of the example parameters.\<close>

definition example_cudnn_params :: GRUSequenceParamsCuDnn where
  "example_cudnn_params =
     \<lparr> element_type = CUDNN_DATA_HALF, element_type_cuda = CUDA_R_16F,
       element_size = 2, direction = CUDNN_UNIDIRECTIONAL,
       linear_before_reset = True, batch_size = 2, max_seq_length = 5,
       input_size = 2, hidden_size = 1,
       w_host_buffers = [1, 2, 3, 4, 5, 6, 7, 8, 9, 10, 11, 12],
       r_host_buffers = [21, 22, 23, 24, 25, 26],
       b_host_buffers = [31, 32, 33, 34, 35, 36, 37, 38],
       seq_length_array = [5, 5] \<rparr>"

text \<open>
  The example object with a weight space of 30 bytes at address 4096, once the vendor has
  been asked for the buffers.
\<close>

definition example_weight_buffers :: GRUSequenceDescriptorsCuDnn where
  "example_weight_buffers =
     (descriptors_of example_cudnn_params example_config example_context 30)
       \<lparr> w_dev_buffers := [(4096, 4), (4100, 4), (4104, 4)],
         r_dev_buffers := [(4108, 2), (4110, 2), (4112, 2)],
         b1_dev_buffers := [(4114, 2), (4116, 2), (4118, 2)],
         b2_dev_buffers := [(4120, 2), (4122, 2), (4124, 2)] \<rparr>"

text \<open>
  An object with one W buffer of ten bytes and one second-bias buffer of no bytes whose
  address lies within the W buffer (the code checks nothing about the size of a
  second-bias buffer), in a weight space of 50 bytes at address 100.
\<close>

definition empty_bias_buffer :: GRUSequenceDescriptorsCuDnn where
  "empty_bias_buffer =
     (descriptors_of example_cudnn_params example_config example_context 50)
       \<lparr> w_dev_buffers := [(100, 10)], b2_dev_buffers := [(105, 0)] \<rparr>"

text \<open>What the example run of \<open>initWeightSpace\<close> sends to the stream.\<close>

definition example_stream :: "stream_op list" where
  "example_stream =
     [Upload 4100 [1, 2, 3, 4], Upload 4116 [31, 32], Upload 4110 [21, 22], Memset 4122 0 2,
      Upload 4096 [5, 6, 7, 8], Upload 4114 [33, 34], Upload 4108 [23, 24], Memset 4120 0 2,
      Upload 4104 [9, 10, 11, 12], Upload 4118 [35, 36], Upload 4112 [25, 26],
      Upload 4124 [37, 38]]"

text \<open>A device memory of zero bytes.\<close>

definition blank_memory :: "nat \<Rightarrow> byte" where
  "blank_memory a = 0"

section \<open>Properties of the ConvertLayout pass\<close>

lemmas permutation_defs =
  nchw_to_nhwc_def nhwc_to_nchw_def ncdhw_to_ndhwc_def ndhwc_to_ncdhw_def

lemma callback_ranks_4_5:
  assumes "rank = 4 \<or> rank = 5" and "2 \<le> length inputs"
  shows "callback rank (ArmConvolution inputs attrs name) =
     Inr (Some (Transpose
        (ArmConvolution
           ([Transpose (inputs ! 0)
               (Constant i32 [rank] (if rank = 4 then [0, 2, 3, 1] else [0, 2, 3, 4, 1])),
             Transpose (inputs ! 1)
               (Constant i32 [rank] (if rank = 4 then [0, 2, 3, 1] else [0, 2, 3, 4, 1]))]
            @ (if length inputs > 2 then [inputs ! 2] else []))
           attrs name)
        (Constant i32 [rank] (if rank = 4 then [0, 3, 1, 2] else [0, 4, 1, 2, 3]))))"
  using assms
  by (auto simp: callback_def and_then_def input_value_def transpose_on_input_def
        transpose_on_output_def permutation_defs)

lemma callback_other_ranks:
  assumes "rank \<noteq> 4" and "rank \<noteq> 5"
  shows "\<exists>e. callback rank (ArmConvolution inputs attrs name) = Inl e"
  using assms
  by (auto simp: callback_def and_then_def input_value_def transpose_on_input_def)

lemma callback_other_ranks_message:
  assumes "rank \<noteq> 4" and "rank \<noteq> 5" and "inputs \<noteq> []"
  shows "callback rank (ArmConvolution inputs attrs name)
           = Inl (IEException ''ConvertLayout: unsupported rank'')"
  using assms
  by (auto simp: callback_def and_then_def input_value_def transpose_on_input_def)

lemma example_rewrite_rank_4:
  "ConvertArmConvolutionLayout (\<lambda>n. Some 4)
     (ArmConvolution [Parameter ''data'', Parameter ''filters'']
        \<lparr>strides = [2, 2], pads_begin = [1, 1], pads_end = [1, 1],
         dilations = [1, 1], auto_pad = SAME_UPPER\<rparr> ''conv'')
   = Inr (Some (Transpose
        (ArmConvolution
           [Transpose (Parameter ''data'') (Constant i32 [4] [0, 2, 3, 1]),
            Transpose (Parameter ''filters'') (Constant i32 [4] [0, 2, 3, 1])]
           \<lparr>strides = [2, 2], pads_begin = [1, 1], pads_end = [1, 1],
            dilations = [1, 1], auto_pad = SAME_UPPER\<rparr> ''conv'')
        (Constant i32 [4] [0, 3, 1, 2])))"
  by (simp add: ConvertArmConvolutionLayout_def callback_def and_then_def input_value_def
        transpose_on_input_def transpose_on_output_def permutation_defs)

text \<open>
  Claim C2. A convolution node with its two inputs (and perhaps a bias) whose output has
  the static rank 4 or 5 is replaced by a transposition, with the order \<open>{0,3,1,2}\<close> for
  rank 4 and \<open>{0,4,1,2,3}\<close> for rank 5, of a new convolution. The first two inputs of the
  new convolution are the first two inputs of the old one, each under a transposition with
  the order \<open>{0,2,3,1}\<close> for rank 4 and \<open>{0,2,3,4,1}\<close> for rank 5; its third input, when the
  old convolution has one, is that input itself, under no transposition.
\<close>

theorem C2_convolution_between_transposes:
  assumes "output_rank (ArmConvolution inputs attrs name) = Some rank"
      and "rank = 4 \<or> rank = 5"
      and "2 \<le> length inputs"
  shows "ConvertArmConvolutionLayout output_rank (ArmConvolution inputs attrs name) =
     Inr (Some (Transpose
        (ArmConvolution
           ([Transpose (inputs ! 0)
               (Constant i32 [rank] (if rank = 4 then [0, 2, 3, 1] else [0, 2, 3, 4, 1])),
             Transpose (inputs ! 1)
               (Constant i32 [rank] (if rank = 4 then [0, 2, 3, 1] else [0, 2, 3, 4, 1]))]
            @ (if length inputs > 2 then [inputs ! 2] else []))
           attrs name)
        (Constant i32 [rank] (if rank = 4 then [0, 3, 1, 2] else [0, 4, 1, 2, 3]))))"
  using assms callback_ranks_4_5 [of rank inputs attrs name]
  by (simp add: ConvertArmConvolutionLayout_def)

theorem C2_convolution_between_transposes_witness:
  "ConvertArmConvolutionLayout (\<lambda>n. Some 5)
     (ArmConvolution [Parameter ''data'', Parameter ''filters'', Parameter ''bias'']
        \<lparr>strides = [1, 1, 1], pads_begin = [0, 0, 0], pads_end = [0, 0, 0],
         dilations = [1, 1, 1], auto_pad = EXPLICIT\<rparr> ''conv'')
   = Inr (Some (Transpose
        (ArmConvolution
           [Transpose (Parameter ''data'') (Constant i32 [5] [0, 2, 3, 4, 1]),
            Transpose (Parameter ''filters'') (Constant i32 [5] [0, 2, 3, 4, 1]),
            Parameter ''bias'']
           \<lparr>strides = [1, 1, 1], pads_begin = [0, 0, 0], pads_end = [0, 0, 0],
            dilations = [1, 1, 1], auto_pad = EXPLICIT\<rparr> ''conv'')
        (Constant i32 [5] [0, 4, 1, 2, 3])))"
  using C2_convolution_between_transposes [of "\<lambda>n. Some 5"
      "[Parameter ''data'', Parameter ''filters'', Parameter ''bias'']"
      "\<lparr>strides = [1, 1, 1], pads_begin = [0, 0, 0], pads_end = [0, 0, 0],
         dilations = [1, 1, 1], auto_pad = EXPLICIT\<rparr>" "''conv''" 5]
  by simp

text \<open>
  Claim C3. For rank 4 and for rank 5, the order that \<open>transpose_on_input\<close> uses composed
  with the order that \<open>transpose_on_output\<close> uses is the identity, so the transposition on
  the output of the convolution brings the axes back to where they were before the
  transpositions on its inputs.
\<close>

theorem C3_output_order_undoes_input_order:
  "(case (transpose_on_input x 4, transpose_on_output y 4) of
        (Inr a, Inr b) \<Rightarrow> compose_order (order_of a) (order_of b) = [0, 1, 2, 3]
      | _ \<Rightarrow> False)
   \<and> (case (transpose_on_input x 5, transpose_on_output y 5) of
        (Inr a, Inr b) \<Rightarrow> compose_order (order_of a) (order_of b) = [0, 1, 2, 3, 4]
      | _ \<Rightarrow> False)
   \<and> permute nhwc_to_nchw (permute nchw_to_nhwc [n, c, h, w]) = [n, c, h, w]
   \<and> permute ndhwc_to_ncdhw (permute ncdhw_to_ndhwc [n, c, d, h, w]) = [n, c, d, h, w]"
  by (simp add: transpose_on_input_def transpose_on_output_def compose_order_def permute_def
        permutation_defs)

text \<open>
  Claim C5. Whenever the pass replaces a convolution, the replacement is a transposition of
  a convolution with the strides, the padding at the beginning and at the end, the
  dilations, the automatic padding and the friendly name of the old one: of the
  convolution, the rewrite changes the inputs only.
\<close>

theorem C5_attributes_and_name_kept:
  assumes "ConvertArmConvolutionLayout output_rank (ArmConvolution inputs attrs name)
             = Inr (Some replacement)"
  shows "\<exists>new_inputs new_attrs new_name order.
           replacement = Transpose (ArmConvolution new_inputs new_attrs new_name) order
         \<and> strides new_attrs = strides attrs
         \<and> pads_begin new_attrs = pads_begin attrs
         \<and> pads_end new_attrs = pads_end attrs
         \<and> dilations new_attrs = dilations attrs
         \<and> auto_pad new_attrs = auto_pad attrs
         \<and> new_attrs = attrs
         \<and> new_name = name"
  using assms
  by (auto simp: ConvertArmConvolutionLayout_def callback_def and_then_def input_value_def
        transpose_on_input_def transpose_on_output_def
        split: option.splits if_splits sum.splits)

theorem C5_attributes_and_name_kept_witness:
  "\<exists>new_inputs new_attrs new_name order.
       Transpose
        (ArmConvolution
           [Transpose (Parameter ''data'') (Constant i32 [4] [0, 2, 3, 1]),
            Transpose (Parameter ''filters'') (Constant i32 [4] [0, 2, 3, 1])]
           \<lparr>strides = [2, 2], pads_begin = [1, 1], pads_end = [1, 1],
            dilations = [1, 1], auto_pad = SAME_UPPER\<rparr> ''conv'')
        (Constant i32 [4] [0, 3, 1, 2])
         = Transpose (ArmConvolution new_inputs new_attrs new_name) order
     \<and> strides new_attrs = [2, 2]
     \<and> pads_begin new_attrs = [1, 1]
     \<and> pads_end new_attrs = [1, 1]
     \<and> dilations new_attrs = [1, 1]
     \<and> auto_pad new_attrs = SAME_UPPER
     \<and> new_name = ''conv''"
  using C5_attributes_and_name_kept [OF example_rewrite_rank_4]
  by simp

text \<open>
  Claim C10. For a rank other than 4 and 5 both \<open>transpose_on_input\<close> and
  \<open>transpose_on_output\<close> raise an exception, and the rewrite of a matched convolution
  whose output has such a rank ends with an exception (the one of the unsupported rank
  whenever the convolution has an input at all): the rewrite succeeds for the ranks 4
  and 5 only.
\<close>

theorem C10_other_ranks_raise:
  assumes "rank \<noteq> 4" and "rank \<noteq> 5"
  shows "transpose_on_input x rank = Inl (IEException ''ConvertLayout: unsupported rank'')
       \<and> transpose_on_output x rank = Inl (IEException ''ConvertLayout: unsupported rank'')
       \<and> (output_rank (ArmConvolution inputs attrs name) = Some rank \<longrightarrow>
            (\<exists>e. ConvertArmConvolutionLayout output_rank (ArmConvolution inputs attrs name) = Inl e)
          \<and> (inputs \<noteq> [] \<longrightarrow>
               ConvertArmConvolutionLayout output_rank (ArmConvolution inputs attrs name)
                 = Inl (IEException ''ConvertLayout: unsupported rank'')))"
  using assms callback_other_ranks [of rank inputs attrs name]
    callback_other_ranks_message [of rank inputs attrs name]
  by (auto simp: ConvertArmConvolutionLayout_def transpose_on_input_def transpose_on_output_def)

theorem C10_other_ranks_raise_witness:
  "transpose_on_input (Parameter ''data'') 3
     = Inl (IEException ''ConvertLayout: unsupported rank'')
   \<and> transpose_on_output (Parameter ''data'') 3
     = Inl (IEException ''ConvertLayout: unsupported rank'')
   \<and> ConvertArmConvolutionLayout (\<lambda>n. Some 3)
       (ArmConvolution [Parameter ''data'', Parameter ''filters'']
          \<lparr>strides = [1], pads_begin = [0], pads_end = [0], dilations = [1],
           auto_pad = EXPLICIT\<rparr> ''conv1d'')
     = Inl (IEException ''ConvertLayout: unsupported rank'')"
  using C10_other_ranks_raise [of 3 "Parameter ''data''" "\<lambda>n. Some 3"
      "[Parameter ''data'', Parameter ''filters'']"
      "\<lparr>strides = [1], pads_begin = [0], pads_end = [0], dilations = [1],
         auto_pad = EXPLICIT\<rparr>" "''conv1d''"]
  by simp

section \<open>Properties of the GRU parameters and of the RNN descriptor\<close>

lemma to_int32_bounds: "- (2 ^ 31) \<le> to_int32 n" "to_int32 n < 2 ^ 31"
  using sint_ge [of "word_of_nat n :: 32 word"] sint_lt [of "word_of_nat n :: 32 word"]
  by (simp_all add: to_int32_def)

lemma vector_resize_nonneg:
  assumes "0 \<le> n" and "n < 2 ^ 31"
  shows "vector_resize [] n v = Inr (replicate (nat n) v)"
proof -
  have "n mod 2 ^ 64 = n"
    using assms by simp
  moreover have "nat n \<le> vector_max_size"
    using assms by (simp add: vector_max_size_def)
  ultimately show ?thesis
    by (simp add: vector_resize_def to_size_t_def Let_def)
qed

text \<open>A negative count becomes a size above every vector, and the resize raises.\<close>

lemma vector_resize_negative:
  assumes "n < 0" and "- (2 ^ 31) \<le> n"
  shows "vector_resize xs n v = Inl LengthError"
proof -
  have "(n + 2 ^ 64) mod 2 ^ 64 = n + 2 ^ 64"
    using assms by (intro mod_pos_pos_trivial) simp_all
  then have "n mod 2 ^ 64 = n + 2 ^ 64"
    by simp
  then have "to_size_t n > vector_max_size"
    using assms by (simp add: to_size_t_def vector_max_size_def)
  then show ?thesis
    by (simp add: vector_resize_def Let_def)
qed

lemma replicate_numeral:
  "replicate (numeral k) x = x # replicate (pred_numeral k) x"
  by (simp add: numeral_eq_Suc)

text \<open>What the constructor leaves in the object when it returns.\<close>

lemma ctor_success:
  assumes "GRUSequenceParamsCuDnn_ctor cv gp = Inr p"
  shows "direction p = CUDNN_UNIDIRECTIONAL"
    and "linear_before_reset p = gru_linear_before_reset gp"
    and "batch_size p = to_int32 (gru_batch_size gp)"
    and "max_seq_length p = to_int32 (gru_max_seq_length gp)"
    and "input_size p = to_int32 (gru_input_size gp)"
    and "hidden_size p = to_int32 (gru_hidden_size gp)"
    and "w_host_buffers p = gru_w_host_buffers gp"
    and "r_host_buffers p = gru_r_host_buffers gp"
    and "b_host_buffers p = gru_b_host_buffers gp"
  using assms
  by (auto simp: GRUSequenceParamsCuDnn_ctor_def and_then_def Let_def
           split: sum.splits if_splits)

lemma example_ctor:
  "GRUSequenceParamsCuDnn_ctor example_converters example_params =
     Inr example_cudnn_params"
  by (simp add: GRUSequenceParamsCuDnn_ctor_def example_converters_def example_params_def
        example_cudnn_params_def and_then_def to_int32_def supported_activations_def
        vector_resize_def to_size_t_def vector_max_size_def replicate_numeral)

text \<open>
  Claim C6. The math precision of the RNN descriptor is taken from the element type only
  when the element type is double, or when it is half and the device supports half
  precision; in every other case it is float (which, when the element type is float, is
  the element type). The math type is the default math exactly when the element type is
  double or float, and tensor-op math otherwise.
\<close>

theorem C6_math_precision_and_math_type:
  "mathPrec (createRNNDescriptor p cfg context) =
     (if element_type p = CUDNN_DATA_DOUBLE
         \<or> (element_type p = CUDNN_DATA_HALF \<and> isHalfSupported (device context))
      then element_type p else CUDNN_DATA_FLOAT)
   \<and> mathType (createRNNDescriptor p cfg context) =
     (if element_type p = CUDNN_DATA_DOUBLE \<or> element_type p = CUDNN_DATA_FLOAT
      then CUDNN_DEFAULT_MATH else CUDNN_TENSOR_OP_MATH)"
  by (simp add: createRNNDescriptor_def Let_def)

text \<open>
  Claim C7. The RNN descriptor of parameters that the constructor has built has the
  standard algorithm, the GRU mode, the linear input mode, one layer, no dropout
  descriptor and the unidirectional direction, and its padded-IO flag is set exactly when
  the data layout of the configuration is not the sequence-major packed one.
\<close>

theorem C7_fixed_settings_of_the_descriptor:
  assumes "GRUSequenceParamsCuDnn_ctor cv gp = Inr p"
  shows "algo (createRNNDescriptor p cfg context) = CUDNN_RNN_ALGO_STANDARD
       \<and> cellMode (createRNNDescriptor p cfg context) = CUDNN_GRU
       \<and> inputMode (createRNNDescriptor p cfg context) = CUDNN_LINEAR_INPUT
       \<and> numLayers (createRNNDescriptor p cfg context) = 1
       \<and> dropoutDesc (createRNNDescriptor p cfg context) = None
       \<and> dirMode (createRNNDescriptor p cfg context) = CUDNN_UNIDIRECTIONAL
       \<and> (padded_io_enabled (createRNNDescriptor p cfg context)
            \<longleftrightarrow> rnn_data_layout cfg \<noteq> CUDNN_RNN_DATA_LAYOUT_SEQ_MAJOR_PACKED)"
  using ctor_success(1) [OF assms]
  by (simp add: createRNNDescriptor_def Let_def padded_io_enabled_def
        CUDNN_RNN_PADDED_IO_ENABLED_def)

theorem C7_fixed_settings_of_the_descriptor_witness:
  "algo (createRNNDescriptor example_cudnn_params example_config example_context)
     = CUDNN_RNN_ALGO_STANDARD
   \<and> dirMode (createRNNDescriptor example_cudnn_params example_config example_context)
     = CUDNN_UNIDIRECTIONAL
   \<and> padded_io_enabled (createRNNDescriptor example_cudnn_params example_config example_context)"
  using C7_fixed_settings_of_the_descriptor [OF example_ctor, of example_config example_context]
  by (simp add: example_config_def)

text \<open>
  Claim C8, as amended. Let the conversions of the element type succeed and let the batch
  size, as a 32-bit signed number, be not negative. Then the construction raises if and
  only if the direction is REVERSE or BIDIRECTIONAL, or the input size and the hidden size
  (as 32-bit signed numbers) are both 1, or the activations are not exactly
  \<open>["sigmoid", "tanh"]\<close>, or the clip value is not zero and not infinite, which a NaN is
  too. When the construction succeeds, the array of sequence lengths has exactly
  \<open>batch_size\<close> entries, each equal to \<open>max_seq_length\<close>.
\<close>

theorem C8_constructor_raises_iff:
  assumes "convertDataType_cudnn cv (gru_element_type gp) = Inr cudnn_type"
      and "convertDataType_cuda cv (gru_element_type gp) = Inr cuda_type"
      and "elementSize cv cudnn_type = Inr size_of_element"
      and "0 \<le> to_int32 (gru_batch_size gp)"
  shows "((\<exists>e. GRUSequenceParamsCuDnn_ctor cv gp = Inl e) \<longleftrightarrow>
            gru_direction gp = REVERSE \<or> gru_direction gp = BIDIRECTIONAL
          \<or> (to_int32 (gru_input_size gp) = 1 \<and> to_int32 (gru_hidden_size gp) = 1)
          \<or> gru_activations gp \<noteq> [''sigmoid'', ''tanh'']
          \<or> (ne_zero (gru_clip gp) \<and> \<not> isinf (gru_clip gp)))
       \<and> (\<forall>p. GRUSequenceParamsCuDnn_ctor cv gp = Inr p \<longrightarrow>
             batch_size p = to_int32 (gru_batch_size gp)
           \<and> max_seq_length p = to_int32 (gru_max_seq_length gp)
           \<and> length (seq_length_array p) = nat (batch_size p)
           \<and> seq_length_array p = replicate (nat (batch_size p)) (max_seq_length p))"
proof -
  have resize: "vector_resize [] (to_int32 (gru_batch_size gp)) v
                  = Inr (replicate (nat (to_int32 (gru_batch_size gp))) v)" for v
    using assms(4) to_int32_bounds(2) [of "gru_batch_size gp"] by (rule vector_resize_nonneg)
  show ?thesis
    using assms(1-3)
    by (auto simp: GRUSequenceParamsCuDnn_ctor_def and_then_def Let_def resize
          supported_activations_def)
qed

theorem C8_constructor_raises_iff_witness:
  "0 \<le> to_int32 (gru_batch_size example_params)
   \<and> \<not> (\<exists>e. GRUSequenceParamsCuDnn_ctor example_converters example_params = Inl e)
   \<and> (\<exists>p. GRUSequenceParamsCuDnn_ctor example_converters example_params = Inr p
          \<and> seq_length_array p = [5, 5])"
proof -
  have batch: "0 \<le> to_int32 (gru_batch_size example_params)"
    by (simp add: example_params_def to_int32_def)
  note at_example = C8_constructor_raises_iff [of example_converters example_params
      CUDNN_DATA_HALF CUDA_R_16F 2, OF _ _ _ batch]
  have facts:
    "\<not> (\<exists>e. GRUSequenceParamsCuDnn_ctor example_converters example_params = Inl e)"
    "\<forall>p. GRUSequenceParamsCuDnn_ctor example_converters example_params = Inr p \<longrightarrow>
         seq_length_array p = [5, 5]"
    using at_example
    by (simp_all add: example_converters_def example_params_def to_int32_def replicate_numeral)
  obtain p where "GRUSequenceParamsCuDnn_ctor example_converters example_params = Inr p"
    using facts(1) by (cases "GRUSequenceParamsCuDnn_ctor example_converters example_params") auto
  with facts batch show ?thesis
    by blast
qed

text \<open>
  The claim as it was stated, with a clip value that is "nonzero and finite", fails for a
  NaN: the construction raises although none of the stated conditions holds.
\<close>

theorem C8_nan_clip_counterexample:
  "GRUSequenceParamsCuDnn_ctor example_converters nan_clip_params
     = Inl (IEException ''Currently GRUSequence cuDNN implementation doesn't support clipping'')
   \<and> \<not> (gru_direction nan_clip_params = REVERSE
        \<or> gru_direction nan_clip_params = BIDIRECTIONAL
        \<or> (gru_input_size nan_clip_params = 1 \<and> gru_hidden_size nan_clip_params = 1)
        \<or> gru_activations nan_clip_params \<noteq> [''sigmoid'', ''tanh'']
        \<or> (ne_zero (gru_clip nan_clip_params) \<and> isfinite (gru_clip nan_clip_params)))"
  by (simp add: GRUSequenceParamsCuDnn_ctor_def example_converters_def example_params_def
        nan_clip_params_def and_then_def to_int32_def supported_activations_def)

section \<open>Properties of weightBuffersFit\<close>

lemma fit_loop_iff:
  "fit_loop ws i \<longleftrightarrow>
     (\<forall>k. i \<le> k \<and> k < length ws \<longrightarrow> ends_before (ws ! (k - 1)) (ws ! k))"
proof (induction ws i rule: fit_loop.induct)
  case (1 ws i)
  show ?case
  proof (cases "i < length ws")
    case False
    then show ?thesis
      by (subst fit_loop.simps) auto
  next
    case True
    note in_range = this
    show ?thesis
    proof (cases "ends_before (ws ! (i - 1)) (ws ! i)")
      case False
      then show ?thesis
        using in_range by (subst fit_loop.simps) (auto simp: ends_before_def)
    next
      case True
      then have "fit_loop ws i = fit_loop ws (i + 1)"
        using in_range by (subst fit_loop.simps) (simp add: ends_before_def)
      also have "\<dots> \<longleftrightarrow> (\<forall>k. i + 1 \<le> k \<and> k < length ws \<longrightarrow> ends_before (ws ! (k - 1)) (ws ! k))"
        using "1.IH" in_range True by (simp add: ends_before_def not_less)
      also have "\<dots> \<longleftrightarrow> (\<forall>k. i \<le> k \<and> k < length ws \<longrightarrow> ends_before (ws ! (k - 1)) (ws ! k))"
      proof (intro iffI allI impI)
        fix k assume h: "\<forall>k. i + 1 \<le> k \<and> k < length ws \<longrightarrow> ends_before (ws ! (k - 1)) (ws ! k)"
          and k: "i \<le> k \<and> k < length ws"
        show "ends_before (ws ! (k - 1)) (ws ! k)"
        proof (cases "k = i")
          case True
          then show ?thesis using \<open>ends_before (ws ! (i - 1)) (ws ! i)\<close> by simp
        next
          case False
          then show ?thesis using h [rule_format, of k] k by simp
        qed
      qed simp
      finally show ?thesis .
    qed
  qed
qed

lemma fit_loop_successively: "fit_loop ws 1 \<longleftrightarrow> successively ends_before ws"
proof -
  have "(\<forall>k. 1 \<le> k \<and> k < length ws \<longrightarrow> ends_before (ws ! (k - 1)) (ws ! k))
        \<longleftrightarrow> (\<forall>i. Suc i < length ws \<longrightarrow> ends_before (ws ! i) (ws ! Suc i))"
  proof (intro iffI allI impI)
    fix i assume h: "\<forall>k. 1 \<le> k \<and> k < length ws \<longrightarrow> ends_before (ws ! (k - 1)) (ws ! k)"
      and "Suc i < length ws"
    then show "ends_before (ws ! i) (ws ! Suc i)"
      using h [rule_format, of "Suc i"] by simp
  next
    fix k assume h: "\<forall>i. Suc i < length ws \<longrightarrow> ends_before (ws ! i) (ws ! Suc i)"
      and "1 \<le> k \<and> k < length ws"
    then show "ends_before (ws ! (k - 1)) (ws ! k)"
      using h [rule_format, of "k - 1"] by simp
  qed
  then show ?thesis
    by (simp add: fit_loop_iff successively_conv_nth)
qed

lemma transp_ends_before: "transp ends_before"
  by (auto simp: transp_def ends_before_def)

lemma fit_loop_sorted_wrt: "fit_loop ws 1 \<longleftrightarrow> sorted_wrt ends_before ws"
  by (simp only: fit_loop_successively successively_conv_sorted_wrt [OF transp_ends_before])

lemma ends_before_no_overlap: "ends_before a b \<Longrightarrow> \<not> overlap a b"
  by (auto simp: ends_before_def overlap_def region_def)

lemma no_overlap_ends_before:
  assumes "\<not> overlap a b" and "data a \<le> data b" and "0 < size_bytes b"
  shows "ends_before a b"
proof (rule ccontr)
  assume "\<not> ends_before a b"
  then have "data b \<in> region a" "data b \<in> region b"
    using assms by (auto simp: ends_before_def region_def)
  then show False
    using assms(1) by (auto simp: overlap_def)
qed

lemma overlap_sym: "overlap a b \<Longrightarrow> overlap b a"
  by (auto simp: overlap_def)

lemma lies_inside_bounds:
  assumes "buffer \<le> data b" and "data b + size_bytes b \<le> buffer + n"
  shows "lies_inside b buffer n"
  using assms by (auto simp: lies_inside_def region_def)

lemma lies_inside_bounds_iff:
  assumes "0 < size_bytes b"
  shows "lies_inside b buffer n \<longleftrightarrow> buffer \<le> data b \<and> data b + size_bytes b \<le> buffer + n"
proof
  assume inside: "lies_inside b buffer n"
  have "data b \<in> region b" "data b + size_bytes b - 1 \<in> region b"
    using assms by (auto simp: region_def)
  then have "data b \<in> {buffer ..< buffer + n}" "data b + size_bytes b - 1 \<in> {buffer ..< buffer + n}"
    using inside by (auto simp: lies_inside_def)
  then show "buffer \<le> data b \<and> data b + size_bytes b \<le> buffer + n"
    using assms by auto
qed (simp add: lies_inside_bounds)

lemma no_two_overlap_sorted_wrt:
  "(\<forall>i < length xs. \<forall>j < length xs. i \<noteq> j \<longrightarrow> \<not> overlap (xs ! i) (xs ! j))
     \<longleftrightarrow> sorted_wrt (\<lambda>a b. \<not> overlap a b) xs"
proof
  assume "\<forall>i < length xs. \<forall>j < length xs. i \<noteq> j \<longrightarrow> \<not> overlap (xs ! i) (xs ! j)"
  then show "sorted_wrt (\<lambda>a b. \<not> overlap a b) xs"
    by (simp add: sorted_wrt_iff_nth_less)
next
  assume sw: "sorted_wrt (\<lambda>a b. \<not> overlap a b) xs"
  show "\<forall>i < length xs. \<forall>j < length xs. i \<noteq> j \<longrightarrow> \<not> overlap (xs ! i) (xs ! j)"
  proof (intro allI impI)
    fix i j assume ij: "i < length xs" "j < length xs" "i \<noteq> j"
    show "\<not> overlap (xs ! i) (xs ! j)"
    proof (cases "i < j")
      case True
      then show ?thesis using sw ij by (simp add: sorted_wrt_iff_nth_less)
    next
      case False
      then have "j < i" using ij by simp
      then have "\<not> overlap (xs ! j) (xs ! i)"
        using sw ij by (simp add: sorted_wrt_iff_nth_less)
      then show ?thesis using overlap_sym by blast
    qed
  qed
qed

lemma sorted_ends_inside:
  assumes sorted: "sorted (map data ys)" and chain: "sorted_wrt ends_before ys"
      and ne: "ys \<noteq> []"
      and first: "buffer \<le> data (ys ! 0)"
      and last: "data (ys ! (length ys - 1)) + size_bytes (ys ! (length ys - 1)) \<le> buffer + n"
      and b: "b \<in> set ys"
  shows "buffer \<le> data b \<and> data b + size_bytes b \<le> buffer + n"
proof -
  obtain k where k: "k < length ys" "b = ys ! k"
    using b by (auto simp: in_set_conv_nth)
  have "0 < length ys"
    using ne by simp
  then have "data (ys ! 0) \<le> data (ys ! k)"
    using sorted k(1) sorted_nth_mono [of "map data ys" 0 k] by simp
  then have lower: "buffer \<le> data b"
    using first k(2) by simp
  have upper: "data b + size_bytes b \<le> buffer + n"
  proof (cases "k = length ys - 1")
    case True
    then show ?thesis using last k(2) by simp
  next
    case False
    then have "k < length ys - 1" using k(1) by simp
    then have "ends_before (ys ! k) (ys ! (length ys - 1))"
      using chain ne by (simp add: sorted_wrt_iff_nth_less)
    then show ?thesis
      using last k(2) by (simp add: ends_before_def)
  qed
  from lower upper show ?thesis ..
qed

lemma sorted_wrt_symmetric_mset:
  assumes sym: "\<And>a b. P a b \<Longrightarrow> P b a" and perm: "mset xs = mset ys"
  shows "sorted_wrt P xs \<longleftrightarrow> sorted_wrt P ys"
  using perm
proof (induction xs arbitrary: ys)
  case Nil
  then show ?case by simp
next
  case (Cons a xs)
  then have "a \<in> set ys"
    by (metis list.set_intros(1) mset_eq_setD)
  then obtain ys1 ys2 where ys: "ys = ys1 @ a # ys2"
    by (auto dest: split_list)
  then have rest: "mset xs = mset (ys1 @ ys2)"
    using Cons.prems by simp
  then have sets: "set xs = set ys1 \<union> set ys2"
    by (metis mset_eq_setD set_append)
  have "sorted_wrt P (a # xs) \<longleftrightarrow> (\<forall>y \<in> set xs. P a y) \<and> sorted_wrt P (ys1 @ ys2)"
    using Cons.IH [OF rest] by simp
  also have "\<dots> \<longleftrightarrow> sorted_wrt P (ys1 @ a # ys2)"
    using sym by (auto simp: sorted_wrt_append sets)
  finally show ?case
    by (simp add: ys)
qed

lemma weightBuffersFit_fit_checks:
  "weightBuffersFit this buffer =
     and_then (Expects (buffer \<noteq> 0))
       (\<lambda>_. fit_checks (sort_key data (all_weights_of this)) buffer (weightSpaceSize this))"
  by (simp add: weightBuffersFit_def fit_checks_def all_weights_of_def Let_def)

lemma fit_checks_unfold:
  assumes "ys \<noteq> []"
  shows "fit_checks ys buffer n =
     Inr (buffer \<le> data (ys ! 0)
        \<and> data (ys ! (length ys - 1)) + size_bytes (ys ! (length ys - 1)) \<le> buffer + n
        \<and> fit_loop ys 1)"
  using assms by (auto simp: fit_checks_def and_then_def at_index_def)

lemma fit_checks_True:
  assumes "fit_checks ys buffer n = Inr True"
  shows "ys \<noteq> []"
  using assms by (auto simp: fit_checks_def and_then_def at_index_def)

text \<open>What a positive answer of the checks gives, whatever the sizes of the buffers.\<close>

lemma fit_checks_sound:
  assumes fit: "fit_checks ys buffer n = Inr True" and sorted: "sorted (map data ys)"
  shows "\<forall>b \<in> set ys. buffer \<le> data b \<and> data b + size_bytes b \<le> buffer + n"
    and "sorted_wrt (\<lambda>a b. \<not> overlap a b) ys"
proof -
  note ne = fit_checks_True [OF fit]
  have checks: "buffer \<le> data (ys ! 0)"
      "data (ys ! (length ys - 1)) + size_bytes (ys ! (length ys - 1)) \<le> buffer + n"
      "fit_loop ys 1"
    using fit fit_checks_unfold [OF ne] by simp_all
  have chain: "sorted_wrt ends_before ys"
    using checks(3) by (simp only: fit_loop_sorted_wrt)
  from sorted_ends_inside [OF sorted chain ne checks(1) checks(2)]
  show "\<forall>b \<in> set ys. buffer \<le> data b \<and> data b + size_bytes b \<le> buffer + n"
    by simp
  show "sorted_wrt (\<lambda>a b. \<not> overlap a b) ys"
    using chain by (rule sorted_wrt_mono_rel [rotated]) (simp add: ends_before_no_overlap)
qed

text \<open>The other direction, for buffers of at least one byte each.\<close>

lemma fit_checks_complete:
  assumes ne: "ys \<noteq> []" and sorted: "sorted (map data ys)"
      and positive: "\<forall>b \<in> set ys. 0 < size_bytes b"
      and inside: "\<forall>b \<in> set ys. lies_inside b buffer n"
      and apart: "sorted_wrt (\<lambda>a b. \<not> overlap a b) ys"
  shows "fit_checks ys buffer n = Inr True"
proof -
  have len: "0 < length ys"
    using ne by simp
  have bounds: "buffer \<le> data b \<and> data b + size_bytes b \<le> buffer + n" if "b \<in> set ys" for b
    using that positive inside lies_inside_bounds_iff [of b buffer n] by simp
  have "ys ! 0 \<in> set ys" "ys ! (length ys - 1) \<in> set ys"
    using len by simp_all
  then have ends: "buffer \<le> data (ys ! 0)"
      "data (ys ! (length ys - 1)) + size_bytes (ys ! (length ys - 1)) \<le> buffer + n"
    using bounds by blast+
  have ordered: "sorted_wrt (\<lambda>a b. data a \<le> data b) ys"
    using sorted by (simp add: sorted_map)
  have "sorted_wrt (\<lambda>a b. data a \<le> data b \<and> \<not> overlap a b) ys"
    using apart ordered by (simp add: sorted_wrt_iff_nth_less)
  then have "sorted_wrt ends_before ys"
    by (rule sorted_wrt_mono_rel [rotated])
       (use positive in \<open>auto intro: no_overlap_ends_before\<close>)
  then have "fit_loop ys 1"
    by (simp only: fit_loop_sorted_wrt)
  with ends show ?thesis
    using fit_checks_unfold [OF ne] by simp
qed

text \<open>
  The checks on any order of the buffers that a sort by start address may produce, against
  what the claim says of the buffers in their own order.
\<close>

lemma fit_checks_any_order:
  assumes perm: "mset ys = mset xs" and sorted: "sorted (map data ys)"
  shows "fit_checks ys buffer n = Inr True \<Longrightarrow>
           (\<forall>b \<in> set xs. lies_inside b buffer n)
         \<and> (\<forall>i < length xs. \<forall>j < length xs. i \<noteq> j \<longrightarrow> \<not> overlap (xs ! i) (xs ! j))"
    and "xs \<noteq> [] \<Longrightarrow> \<forall>b \<in> set xs. 0 < size_bytes b \<Longrightarrow>
           fit_checks ys buffer n =
             Inr ((\<forall>b \<in> set xs. lies_inside b buffer n)
                \<and> (\<forall>i < length xs. \<forall>j < length xs. i \<noteq> j \<longrightarrow> \<not> overlap (xs ! i) (xs ! j)))"
proof -
  let ?spec = "(\<forall>b \<in> set xs. lies_inside b buffer n)
         \<and> (\<forall>i < length xs. \<forall>j < length xs. i \<noteq> j \<longrightarrow> \<not> overlap (xs ! i) (xs ! j))"
  have sets: "set ys = set xs"
    using perm by (rule mset_eq_setD)
  have apart_iff: "sorted_wrt (\<lambda>a b. \<not> overlap a b) ys
                     \<longleftrightarrow> sorted_wrt (\<lambda>a b. \<not> overlap a b) xs"
    using overlap_sym by (intro sorted_wrt_symmetric_mset [OF _ perm]) blast
  show sound: ?spec if fit: "fit_checks ys buffer n = Inr True"
    using fit_checks_sound [OF fit sorted]
    unfolding sets apart_iff no_two_overlap_sorted_wrt
    by (simp add: lies_inside_bounds)
  show "fit_checks ys buffer n = Inr ?spec"
    if ne: "xs \<noteq> []" and positive: "\<forall>b \<in> set xs. 0 < size_bytes b"
  proof -
    have ne': "ys \<noteq> []"
      using ne sets by auto
    obtain r where r: "fit_checks ys buffer n = Inr r"
      using fit_checks_unfold [OF ne'] by blast
    have "r \<longleftrightarrow> ?spec"
    proof
      assume r
      then show ?spec
        using r sound by simp
    next
      assume spec: ?spec
      have "sorted_wrt (\<lambda>a b. \<not> overlap a b) ys"
        using spec unfolding apart_iff no_two_overlap_sorted_wrt by simp
      then have "fit_checks ys buffer n = Inr True"
        using ne' sorted positive spec sets by (intro fit_checks_complete) simp_all
      then show r
        using r by simp
    qed
    then show ?thesis
      using r by simp
  qed
qed

lemma sort_key_Nil_iff: "sort_key f xs = [] \<longleftrightarrow> xs = []"
  by (metis length_0_conv length_sort)

lemma weightBuffersFit_True:
  assumes "weightBuffersFit this buffer = Inr True"
  shows "buffer \<noteq> 0"
    and "fit_checks (sort_key data (all_weights_of this)) buffer (weightSpaceSize this) = Inr True"
  using assms unfolding weightBuffersFit_fit_checks
  by (auto simp: and_then_def Expects_def split: if_splits)

lemma weightBuffersFit_nonnull:
  assumes "buffer \<noteq> 0"
  shows "weightBuffersFit this buffer
           = fit_checks (sort_key data (all_weights_of this)) buffer (weightSpaceSize this)"
  using assms unfolding weightBuffersFit_fit_checks by (simp add: and_then_def Expects_def)

lemma weightBuffersFit_sound:
  assumes fit: "weightBuffersFit this buffer = Inr True"
  shows "\<forall>b \<in> set (all_weights_of this). lies_inside b buffer (weightSpaceSize this)"
    and "sorted_wrt (\<lambda>a b. \<not> overlap a b) (all_weights_of this)"
proof -
  have "sorted (map data (sort_key data (all_weights_of this)))"
    by simp
  note both = fit_checks_any_order(1) [OF mset_sort this weightBuffersFit_True(2) [OF fit]]
  show "\<forall>b \<in> set (all_weights_of this). lies_inside b buffer (weightSpaceSize this)"
    using both by blast
  show "sorted_wrt (\<lambda>a b. \<not> overlap a b) (all_weights_of this)"
    using both unfolding no_two_overlap_sorted_wrt by blast
qed

text \<open>
  Claim C9, as amended. Whenever \<open>weightBuffersFit\<close> returns true, every W, R, first-bias
  and second-bias buffer lies inside the address range \<open>[buffer, buffer + weightSpaceSize())\<close>
  and no two of the buffers overlap: the test of neighbours after the sort by start
  address is enough for all pairs and for the buffers in the middle. In the other
  direction, for a weight space that is not the null pointer and a non-empty collection of
  buffers each of which has at least one byte, \<open>weightBuffersFit\<close> returns, and it returns
  true if and only if every buffer lies inside that range and no two of them overlap. Both
  hold as well for the checks run on any other order of the buffers that a sort by start
  address may produce.
\<close>

theorem C9_weightBuffersFit_inside_and_apart:
  "(weightBuffersFit this buffer = Inr True \<longrightarrow>
      (\<forall>b \<in> set (all_weights_of this). lies_inside b buffer (weightSpaceSize this))
    \<and> (\<forall>i < length (all_weights_of this). \<forall>j < length (all_weights_of this).
          i \<noteq> j \<longrightarrow> \<not> overlap (all_weights_of this ! i) (all_weights_of this ! j)))
 \<and> (buffer \<noteq> 0 \<and> all_weights_of this \<noteq> []
      \<and> (\<forall>b \<in> set (all_weights_of this). 0 < size_bytes b) \<longrightarrow>
      weightBuffersFit this buffer =
        Inr ((\<forall>b \<in> set (all_weights_of this). lies_inside b buffer (weightSpaceSize this))
           \<and> (\<forall>i < length (all_weights_of this). \<forall>j < length (all_weights_of this).
                 i \<noteq> j \<longrightarrow> \<not> overlap (all_weights_of this ! i) (all_weights_of this ! j))))
 \<and> (mset all_weights = mset (all_weights_of this) \<and> sorted (map data all_weights) \<longrightarrow>
      (fit_checks all_weights buffer (weightSpaceSize this) = Inr True \<longrightarrow>
         (\<forall>b \<in> set (all_weights_of this). lies_inside b buffer (weightSpaceSize this))
       \<and> (\<forall>i < length (all_weights_of this). \<forall>j < length (all_weights_of this).
             i \<noteq> j \<longrightarrow> \<not> overlap (all_weights_of this ! i) (all_weights_of this ! j)))
    \<and> (all_weights_of this \<noteq> [] \<and> (\<forall>b \<in> set (all_weights_of this). 0 < size_bytes b) \<longrightarrow>
         fit_checks all_weights buffer (weightSpaceSize this) =
           Inr ((\<forall>b \<in> set (all_weights_of this). lies_inside b buffer (weightSpaceSize this))
              \<and> (\<forall>i < length (all_weights_of this). \<forall>j < length (all_weights_of this).
                    i \<noteq> j \<longrightarrow> \<not> overlap (all_weights_of this ! i) (all_weights_of this ! j)))))"
proof (intro conjI impI)
  assume fit: "weightBuffersFit this buffer = Inr True"
  show "\<forall>b \<in> set (all_weights_of this). lies_inside b buffer (weightSpaceSize this)"
    using weightBuffersFit_sound(1) [OF fit] .
  show "\<forall>i < length (all_weights_of this). \<forall>j < length (all_weights_of this).
          i \<noteq> j \<longrightarrow> \<not> overlap (all_weights_of this ! i) (all_weights_of this ! j)"
    using weightBuffersFit_sound(2) [OF fit] by (simp only: no_two_overlap_sorted_wrt)
next
  assume pre: "buffer \<noteq> 0 \<and> all_weights_of this \<noteq> []
      \<and> (\<forall>b \<in> set (all_weights_of this). 0 < size_bytes b)"
  show "weightBuffersFit this buffer =
        Inr ((\<forall>b \<in> set (all_weights_of this). lies_inside b buffer (weightSpaceSize this))
           \<and> (\<forall>i < length (all_weights_of this). \<forall>j < length (all_weights_of this).
                 i \<noteq> j \<longrightarrow> \<not> overlap (all_weights_of this ! i) (all_weights_of this ! j)))"
    using pre fit_checks_any_order(2) [OF mset_sort, of data "all_weights_of this" buffer
        "weightSpaceSize this"]
    by (simp add: weightBuffersFit_nonnull)
next
  assume order: "mset all_weights = mset (all_weights_of this) \<and> sorted (map data all_weights)"
  {
    assume "fit_checks all_weights buffer (weightSpaceSize this) = Inr True"
    then have both: "(\<forall>b \<in> set (all_weights_of this). lies_inside b buffer (weightSpaceSize this))
       \<and> (\<forall>i < length (all_weights_of this). \<forall>j < length (all_weights_of this).
             i \<noteq> j \<longrightarrow> \<not> overlap (all_weights_of this ! i) (all_weights_of this ! j))"
      using order by (intro fit_checks_any_order(1)) simp_all
    show "\<forall>b \<in> set (all_weights_of this). lies_inside b buffer (weightSpaceSize this)"
      using both by blast
    show "\<forall>i < length (all_weights_of this). \<forall>j < length (all_weights_of this).
             i \<noteq> j \<longrightarrow> \<not> overlap (all_weights_of this ! i) (all_weights_of this ! j)"
      using both by blast
  }
  assume "all_weights_of this \<noteq> [] \<and> (\<forall>b \<in> set (all_weights_of this). 0 < size_bytes b)"
  then show "fit_checks all_weights buffer (weightSpaceSize this) =
           Inr ((\<forall>b \<in> set (all_weights_of this). lies_inside b buffer (weightSpaceSize this))
              \<and> (\<forall>i < length (all_weights_of this). \<forall>j < length (all_weights_of this).
                    i \<noteq> j \<longrightarrow> \<not> overlap (all_weights_of this ! i) (all_weights_of this ! j)))"
    using order by (intro fit_checks_any_order(2)) simp_all
qed

lemma example_fit: "weightBuffersFit example_weight_buffers 4096 = Inr True"
  by (simp add: weightBuffersFit_def example_weight_buffers_def descriptors_of_def and_then_def
        Expects_def at_index_def weightSpaceSize_def fit_loop.simps)

theorem C9_weightBuffersFit_inside_and_apart_witness:
  "weightBuffersFit example_weight_buffers 4096 = Inr True
   \<and> lies_inside (4100, 4) 4096 30
   \<and> \<not> overlap (4096, 4) (4100, 4)"
proof -
  have all: "all_weights_of example_weight_buffers =
      [(4096, 4), (4100, 4), (4104, 4), (4108, 2), (4110, 2), (4112, 2),
       (4114, 2), (4116, 2), (4118, 2), (4120, 2), (4122, 2), (4124, 2)]"
    and size: "weightSpaceSize example_weight_buffers = 30"
    by (simp_all add: all_weights_of_def example_weight_buffers_def weightSpaceSize_def
          descriptors_of_def)
  note c9 = C9_weightBuffersFit_inside_and_apart [of example_weight_buffers 4096]
  have inside: "\<forall>b \<in> set (all_weights_of example_weight_buffers).
                   lies_inside b 4096 (weightSpaceSize example_weight_buffers)"
    and apart: "\<forall>i < length (all_weights_of example_weight_buffers).
                \<forall>j < length (all_weights_of example_weight_buffers).
                  i \<noteq> j \<longrightarrow> \<not> overlap (all_weights_of example_weight_buffers ! i)
                                     (all_weights_of example_weight_buffers ! j)"
    using c9 example_fit by blast+
  have "lies_inside (4100, 4) 4096 30"
    using inside unfolding all size by simp
  moreover have "\<not> overlap (4096, 4) (4100, 4)"
    using apart [rule_format, of 0 1] unfolding all by simp
  ultimately show ?thesis
    using example_fit by simp
qed

text \<open>
  The claim as it was stated, for every non-empty collection of buffers, fails for a buffer
  of no bytes: it occupies no address, so it lies inside the range and overlaps nothing,
  yet its start address within another buffer makes the test of neighbours fail.
\<close>

theorem C9_empty_buffer_counterexample:
  "weightBuffersFit empty_bias_buffer 100 = Inr False
   \<and> all_weights_of empty_bias_buffer = [(100, 10), (105, 0)]
   \<and> weightSpaceSize empty_bias_buffer = 50
   \<and> lies_inside (100, 10) 100 50
   \<and> lies_inside (105, 0) 100 50
   \<and> \<not> overlap (100, 10) (105, 0)
   \<and> \<not> overlap (105, 0) (100, 10)"
  by (simp add: weightBuffersFit_def empty_bias_buffer_def descriptors_of_def and_then_def
        Expects_def at_index_def weightSpaceSize_def all_weights_of_def fit_loop.simps
        lies_inside_def overlap_def region_def)

section \<open>Properties of initWeightSpace\<close>

lemma and_then_Inr_iff: "and_then m f = Inr y \<longleftrightarrow> (\<exists>x. m = Inr x \<and> f x = Inr y)"
  by (cases m) (simp_all add: and_then_def)

lemma Ensures_Inr_iff: "Ensures c = Inr u \<longleftrightarrow> c"
  by (simp add: Ensures_def)

lemma Expects_Inr_iff: "Expects c = Inr u \<longleftrightarrow> c"
  by (simp add: Expects_def)

lemma throwIfError_Inr_iff: "throwIfError c = Inr u \<longleftrightarrow> c"
  by (simp add: throwIfError_def)

lemma at_index_Inr_iff: "at_index v i = Inr x \<longleftrightarrow> i < length v \<and> x = v ! i"
  by (auto simp: at_index_def)

lemma host_read_Inr_iff:
  "host_read buf off n = Inr bytes \<longleftrightarrow> off + n \<le> length buf \<and> bytes = take n (drop off buf)"
  by (auto simp: host_read_def)

lemma for_each_three:
  "for_each [0 ..< 3] body s = Inr s' \<longleftrightarrow>
     (\<exists>s1 s2. body 0 s = Inr s1 \<and> body 1 s1 = Inr s2 \<and> body 2 s2 = Inr s')"
proof -
  have "[0 ..< 3] = [0, 1, 2::nat]"
    by (simp add: upt_rec)
  then show ?thesis
    by (simp add: and_then_Inr_iff)
qed

lemma gate_swap_values: "gate_swap 0 = 1" "gate_swap 1 = 0" "gate_swap 2 = 2"
  by (simp_all add: gate_swap_def)

lemma gate_swap_involution: "gate_swap (gate_swap k) = k"
  by (simp add: gate_swap_def)

lemma init_body_Inr:
  assumes "init_body this w_size r_size b1_size i (i * w_size, i * r_size, i * b1_size, stream) = Inr st"
      and "i < 3"
  shows "st = (Suc i * w_size, Suc i * r_size, Suc i * b1_size,
               stream @ iteration_ops this w_size r_size b1_size i)"
    and "nat (gate_swap (int i)) < length (w_dev_buffers this)"
    and "nat (gate_swap (int i)) < length (r_dev_buffers this)"
    and "nat (gate_swap (int i)) < length (b1_dev_buffers this)"
    and "size_bytes (w_dev_buffers this ! nat (gate_swap (int i))) = w_size"
    and "size_bytes (r_dev_buffers this ! nat (gate_swap (int i))) = r_size"
    and "size_bytes (b1_dev_buffers this ! nat (gate_swap (int i))) = b1_size"
    and "Suc i * w_size \<le> length (w_host_buffers (params this))"
    and "Suc i * r_size \<le> length (r_host_buffers (params this))"
    and "Suc i * b1_size \<le> length (b_host_buffers (params this))"
    and "i < length (b2_dev_buffers this) \<longrightarrow> nat (gate_swap (int i)) < length (b2_dev_buffers this)"
    and "i < length (b2_dev_buffers this) \<and> linear_before_reset (params this) \<and> i = 2 \<longrightarrow>
           size_t_mul b1_size 3 + b1_size \<le> length (b_host_buffers (params this))"
proof -
  have to3: "to_size_t 3 = 3"
    by (simp add: to_size_t_def)
  have i: "i = 0 \<or> i = 1 \<or> i = 2"
    using assms(2) by auto
  note unfolded = assms(1) [unfolded init_body_def Let_def prod.case and_then_Inr_iff
      at_index_Inr_iff Expects_Inr_iff host_read_Inr_iff Ensures_Inr_iff]
  show "st = (Suc i * w_size, Suc i * r_size, Suc i * b1_size,
               stream @ iteration_ops this w_size r_size b1_size i)"
    using unfolded i
    by (auto simp: iteration_ops_def second_bias_ops_def chunk_def Let_def gate_swap_def to3
          and_then_Inr_iff at_index_Inr_iff Ensures_Inr_iff host_read_Inr_iff
          split: if_splits)
  show "nat (gate_swap (int i)) < length (w_dev_buffers this)"
    and "nat (gate_swap (int i)) < length (r_dev_buffers this)"
    and "nat (gate_swap (int i)) < length (b1_dev_buffers this)"
    and "size_bytes (w_dev_buffers this ! nat (gate_swap (int i))) = w_size"
    and "size_bytes (r_dev_buffers this ! nat (gate_swap (int i))) = r_size"
    and "size_bytes (b1_dev_buffers this ! nat (gate_swap (int i))) = b1_size"
    and "Suc i * w_size \<le> length (w_host_buffers (params this))"
    and "Suc i * r_size \<le> length (r_host_buffers (params this))"
    and "Suc i * b1_size \<le> length (b_host_buffers (params this))"
    using unfolded by auto
  show "i < length (b2_dev_buffers this) \<longrightarrow> nat (gate_swap (int i)) < length (b2_dev_buffers this)"
    using unfolded by (auto simp: and_then_Inr_iff at_index_Inr_iff split: if_splits)
  show "i < length (b2_dev_buffers this) \<and> linear_before_reset (params this) \<and> i = 2 \<longrightarrow>
           size_t_mul b1_size 3 + b1_size \<le> length (b_host_buffers (params this))"
    using unfolded
    by (auto simp: and_then_Inr_iff at_index_Inr_iff Ensures_Inr_iff host_read_Inr_iff
          gate_swap_def to3 split: if_splits)
qed

lemma calc_body_Inr:
  assumes "calc_body element_sz vendor weight_space pseudo_layer i st = Inr st'"
  shows "params (fst st') = params (fst st)"
    and "length (w_dev_buffers (fst st')) = Suc (length (w_dev_buffers (fst st)))"
    and "length (r_dev_buffers (fst st')) = Suc (length (r_dev_buffers (fst st)))"
    and "length (b1_dev_buffers (fst st')) = Suc (length (b1_dev_buffers (fst st)))"
    and "length (b2_dev_buffers (fst st')) \<le> Suc (length (b2_dev_buffers (fst st)))"
proof -
  obtain this w_total r_total b1_total b2_total
    where st: "st = (this, w_total, r_total, b1_total, b2_total)"
    by (cases st) auto
  note unfolded = assms [unfolded st calc_body_def Let_def prod.case and_then_Inr_iff]
  show "params (fst st') = params (fst st)"
    and "length (w_dev_buffers (fst st')) = Suc (length (w_dev_buffers (fst st)))"
    and "length (r_dev_buffers (fst st')) = Suc (length (r_dev_buffers (fst st)))"
    and "length (b1_dev_buffers (fst st')) = Suc (length (b1_dev_buffers (fst st)))"
    and "length (b2_dev_buffers (fst st')) \<le> Suc (length (b2_dev_buffers (fst st)))"
    using unfolded by (auto simp: st)
qed

lemma calculateWeightBuffers_Inr:
  assumes calc: "calculateWeightBuffers cv vendor this0 buffer = Inr this"
      and uni: "direction (params this0) = CUDNN_UNIDIRECTIONAL"
  shows "params this = params this0"
    and "length (w_dev_buffers this) = 3"
    and "length (r_dev_buffers this) = 3"
    and "length (b1_dev_buffers this) = 3"
    and "length (b2_dev_buffers this) \<le> 3"
    and "weightBuffersFit this buffer = Inr True"
proof -
  let ?cleared = "this0\<lparr> w_dev_buffers := [], r_dev_buffers := [],
                          b1_dev_buffers := [], b2_dev_buffers := [] \<rparr>"
  have one: "map int [0 ..< nat (numDirections (params this0))] = [0]"
    using uni by (simp add: numDirections_def)
  obtain element_sz st where
      nested: "for_each [0 ..< 3] (calc_body element_sz vendor buffer 0)
                (?cleared, 0, 0, 0, 0) = Inr st"
    and rest: "(case st of (this', w_total, r_total, b1_total, b2_total) \<Rightarrow>
                 and_then (weightBuffersFit this' buffer) (\<lambda>fit.
                 and_then (Ensures fit) (\<lambda>_.
                 and_then (Ensures (weight_space_size this' \<ge>
                    size_t_add (size_t_add (size_t_add w_total r_total) b1_total) b2_total)) (\<lambda>_.
                 and_then (Ensures (w_total \<ge> length (w_host_buffers (params this'))
                        \<and> r_total \<ge> length (r_host_buffers (params this')))) (\<lambda>_.
                 Inr this'))))) = Inr this"
    using calc
    unfolding calculateWeightBuffers_def Let_def one and_then_Inr_iff lin_layer_count_def
    by (auto simp: and_then_Inr_iff)
  have this_eq: "this = fst st" and fit: "weightBuffersFit (fst st) buffer = Inr True"
    using rest by (auto simp: and_then_Inr_iff Ensures_Inr_iff split: prod.splits)
  obtain s1 s2 where steps:
      "calc_body element_sz vendor buffer 0 0 (?cleared, 0, 0, 0, 0) = Inr s1"
      "calc_body element_sz vendor buffer 0 1 s1 = Inr s2"
      "calc_body element_sz vendor buffer 0 2 s2 = Inr st"
    using nested unfolding for_each_three by blast
  note a = calc_body_Inr [OF steps(1)] and b = calc_body_Inr [OF steps(2)]
    and c = calc_body_Inr [OF steps(3)]
  show "params this = params this0"
    using a(1) b(1) c(1) this_eq by simp
  show "length (w_dev_buffers this) = 3"
    using a(2) b(2) c(2) this_eq by simp
  show "length (r_dev_buffers this) = 3"
    using a(3) b(3) c(3) this_eq by simp
  show "length (b1_dev_buffers this) = 3"
    using a(4) b(4) c(4) this_eq by simp
  show "length (b2_dev_buffers this) \<le> 3"
    using a(5) b(5) c(5) this_eq by simp
  show "weightBuffersFit this buffer = Inr True"
    using fit this_eq by simp
qed

lemma initWeightSpace_Inr:
  assumes init: "initWeightSpace cv vendor this0 buffer = Inr (this, stream)"
      and uni: "direction (params this0) = CUDNN_UNIDIRECTIONAL"
  shows "calculateWeightBuffers cv vendor this0 buffer = Inr this"
    and "\<exists>s1 s2 s3.
           init_body this (w_chunk_size (params this)) (r_chunk_size (params this))
             (bias_chunk_size (params this)) 0 (0, 0, 0, []) = Inr s1
         \<and> init_body this (w_chunk_size (params this)) (r_chunk_size (params this))
             (bias_chunk_size (params this)) 1 s1 = Inr s2
         \<and> init_body this (w_chunk_size (params this)) (r_chunk_size (params this))
             (bias_chunk_size (params this)) 2 s2 = Inr s3
         \<and> stream = snd (snd (snd s3))"
proof -
  obtain this' where calc: "calculateWeightBuffers cv vendor this0 buffer = Inr this'"
    and loop: "(let num_pseudo_layers = numDirections (params this');
         dev_buffers_count = lin_layer_count * nat num_pseudo_layers;
         w_host_buffer_size = length (w_host_buffers (params this')) div dev_buffers_count;
         r_host_buffer_size = length (r_host_buffers (params this')) div dev_buffers_count;
         b1_host_layer_size = size_t_mul (to_size_t (hidden_size (params this')))
                                (element_size (params this'))
       in
       and_then (for_each [0 ..< dev_buffers_count]
                 (init_body this' w_host_buffer_size r_host_buffer_size b1_host_layer_size)
                 (0, 0, 0, []))
         (\<lambda>(w_host_addr, r_host_addr, b1_host_addr, stream). Inr (this', stream)))
        = Inr (this, stream)"
    using init unfolding initWeightSpace_def and_then_Inr_iff by blast
  have uni': "direction (params this') = CUDNN_UNIDIRECTIONAL"
    using calculateWeightBuffers_Inr(1) [OF calc uni] uni by simp
  have count: "lin_layer_count * nat (numDirections (params this')) = 3"
    using uni' by (simp add: numDirections_def lin_layer_count_def)
  have "\<exists>a b c. for_each [0 ..< 3]
         (init_body this' (w_chunk_size (params this')) (r_chunk_size (params this'))
            (bias_chunk_size (params this'))) (0, 0, 0, []) = Inr (a, b, c, stream)
       \<and> this = this'"
    using loop
    by (auto simp: Let_def count and_then_Inr_iff w_chunk_size_def r_chunk_size_def
          bias_chunk_size_def)
  then obtain s3 where s3:
      "for_each [0 ..< 3]
         (init_body this' (w_chunk_size (params this')) (r_chunk_size (params this'))
            (bias_chunk_size (params this'))) (0, 0, 0, []) = Inr s3"
      and out: "this = this'" "stream = snd (snd (snd s3))"
    by auto
  show "calculateWeightBuffers cv vendor this0 buffer = Inr this"
    using calc out by simp
  show "\<exists>s1 s2 s3.
           init_body this (w_chunk_size (params this)) (r_chunk_size (params this))
             (bias_chunk_size (params this)) 0 (0, 0, 0, []) = Inr s1
         \<and> init_body this (w_chunk_size (params this)) (r_chunk_size (params this))
             (bias_chunk_size (params this)) 1 s1 = Inr s2
         \<and> init_body this (w_chunk_size (params this)) (r_chunk_size (params this))
             (bias_chunk_size (params this)) 2 s2 = Inr s3
         \<and> stream = snd (snd (snd s3))"
    using s3 out unfolding for_each_three by blast
qed

lemma read_after_op_same: "read_dev (run_op op mem) (op_region op) = op_bytes op"
  by (cases op) (auto simp: read_dev_def intro!: nth_equalityI)

lemma read_after_op_apart:
  assumes "region (op_region op) \<inter> region b = {}"
  shows "read_dev (run_op op mem) b = read_dev mem b"
proof -
  have "run_op op mem a = mem a" if "a \<in> region b" for a
  proof -
    have "a \<notin> region (op_region op)"
      using assms that by auto
    then show ?thesis
      by (cases op) (auto simp: region_def)
  qed
  then show ?thesis
    by (simp add: read_dev_def region_def)
qed

lemma run_stream_snoc: "run_stream (ops @ [x]) mem = run_op x (run_stream ops mem)"
  by (simp add: run_stream_def)

lemma read_after_stream:
  assumes "sorted_wrt (\<lambda>a b. \<not> overlap a b) (map snd zs)"
      and "\<forall>(op, buf) \<in> set zs. region (op_region op) \<subseteq> region buf"
      and "(op, buf) \<in> set zs"
  shows "read_dev (run_stream (map fst zs) mem) (op_region op) = op_bytes op"
  using assms
proof (induction zs rule: rev_induct)
  case Nil
  then show ?case by simp
next
  case (snoc z zs)
  obtain op' buf' where z: "z = (op', buf')"
    by (cases z)
  have apart: "sorted_wrt (\<lambda>a b. \<not> overlap a b) (map snd zs)"
    and last: "\<forall>a \<in> set zs. \<not> overlap (snd a) buf'"
    using snoc.prems(1) by (auto simp: sorted_wrt_append z)
  have inside: "\<forall>(op, buf) \<in> set zs. region (op_region op) \<subseteq> region buf"
    and inside': "region (op_region op') \<subseteq> region buf'"
    using snoc.prems(2) by (auto simp: z)
  show ?case
  proof (cases "op = op'")
    case True
    then show ?thesis
      by (simp add: run_stream_snoc z read_after_op_same)
  next
    case False
    then have mem: "(op, buf) \<in> set zs"
      using snoc.prems(3) by (auto simp: z)
    then have "\<not> overlap buf buf'" "region (op_region op) \<subseteq> region buf"
      using last inside by auto
    then have "region (op_region op') \<inter> region (op_region op) = {}"
      using inside' by (auto simp: overlap_def)
    then have "read_dev (run_stream (map fst (zs @ [z])) mem) (op_region op)
                 = read_dev (run_stream (map fst zs) mem) (op_region op)"
      by (simp add: run_stream_snoc z read_after_op_apart)
    then show ?thesis
      using snoc.IH [OF apart inside mem] by simp
  qed
qed

lemma apart_at_distinct_indices:
  assumes "sorted_wrt (\<lambda>a b. \<not> overlap a b) bufs"
      and "distinct idxs" and "\<forall>k \<in> set idxs. k < length bufs"
  shows "sorted_wrt (\<lambda>a b. \<not> overlap a b) (map ((!) bufs) idxs)"
proof -
  have pairs: "\<forall>i < length bufs. \<forall>j < length bufs. i \<noteq> j \<longrightarrow> \<not> overlap (bufs ! i) (bufs ! j)"
    using assms(1) by (simp only: no_two_overlap_sorted_wrt)
  have "\<not> overlap (bufs ! (idxs ! i)) (bufs ! (idxs ! j))"
    if "i < j" "j < length idxs" for i j
  proof -
    have "idxs ! i \<noteq> idxs ! j" "idxs ! i < length bufs" "idxs ! j < length bufs"
      using that assms(2,3) by (auto simp: nth_eq_iff_index_eq)
    then show ?thesis
      using pairs by blast
  qed
  then show ?thesis
    by (simp add: sorted_wrt_map sorted_wrt_iff_nth_less)
qed

lemma initWeightSpace_effect:
  assumes init: "initWeightSpace cv vendor this0 buffer = Inr (this, stream)"
      and uni: "direction (params this0) = CUDNN_UNIDIRECTIONAL"
  shows "stream = iteration_ops this (w_chunk_size (params this)) (r_chunk_size (params this))
                    (bias_chunk_size (params this)) 0
                @ iteration_ops this (w_chunk_size (params this)) (r_chunk_size (params this))
                    (bias_chunk_size (params this)) 1
                @ iteration_ops this (w_chunk_size (params this)) (r_chunk_size (params this))
                    (bias_chunk_size (params this)) 2"
    and "params this = params this0"
    and "length (w_dev_buffers this) = 3"
    and "length (r_dev_buffers this) = 3"
    and "length (b1_dev_buffers this) = 3"
    and "length (b2_dev_buffers this) \<le> 3"
    and "length (b2_dev_buffers this) \<noteq> 1"
    and "\<forall>j < 3. size_bytes (w_dev_buffers this ! j) = w_chunk_size (params this)
              \<and> size_bytes (r_dev_buffers this ! j) = r_chunk_size (params this)
              \<and> size_bytes (b1_dev_buffers this ! j) = bias_chunk_size (params this)"
    and "3 * w_chunk_size (params this) \<le> length (w_host_buffers (params this))"
    and "3 * r_chunk_size (params this) \<le> length (r_host_buffers (params this))"
    and "3 * bias_chunk_size (params this) \<le> length (b_host_buffers (params this))"
    and "linear_before_reset (params this) \<and> 2 < length (b2_dev_buffers this) \<longrightarrow>
           size_t_mul (bias_chunk_size (params this)) 3 + bias_chunk_size (params this)
             \<le> length (b_host_buffers (params this))"
    and "sorted_wrt (\<lambda>a b. \<not> overlap a b) (all_weights_of this)"
proof -
  let ?W = "w_chunk_size (params this)" and ?R = "r_chunk_size (params this)"
  let ?B = "bias_chunk_size (params this)"
  note calc = initWeightSpace_Inr(1) [OF init uni]
  note c = calculateWeightBuffers_Inr [OF calc uni]
  obtain s1 s2 s3 where
      b0: "init_body this ?W ?R ?B 0 (0 * ?W, 0 * ?R, 0 * ?B, []) = Inr s1"
    and b1': "init_body this ?W ?R ?B 1 s1 = Inr s2"
    and b2': "init_body this ?W ?R ?B 2 s2 = Inr s3"
    and stream: "stream = snd (snd (snd s3))"
    using initWeightSpace_Inr(2) [OF init uni] by auto
  note f0 = init_body_Inr [OF b0]
  have b1: "init_body this ?W ?R ?B 1 (1 * ?W, 1 * ?R, 1 * ?B, [] @ iteration_ops this ?W ?R ?B 0)
              = Inr s2"
    using b1' f0(1) by simp
  note f1 = init_body_Inr [OF b1]
  have b2: "init_body this ?W ?R ?B 2 (2 * ?W, 2 * ?R, 2 * ?B,
                ([] @ iteration_ops this ?W ?R ?B 0) @ iteration_ops this ?W ?R ?B 1)
              = Inr s3"
    using b2' f1(1) by (simp add: numeral_2_eq_2)
  note f2 = init_body_Inr [OF b2]
  show "stream = iteration_ops this ?W ?R ?B 0 @ iteration_ops this ?W ?R ?B 1
                 @ iteration_ops this ?W ?R ?B 2"
    using stream f2(1) by simp
  show "params this = params this0" "length (w_dev_buffers this) = 3"
    "length (r_dev_buffers this) = 3" "length (b1_dev_buffers this) = 3"
    "length (b2_dev_buffers this) \<le> 3"
    using c by simp_all
  show "length (b2_dev_buffers this) \<noteq> 1"
    using f0(11) by (auto simp: gate_swap_def)
  have sizes: "size_bytes (w_dev_buffers this ! j) = ?W \<and> size_bytes (r_dev_buffers this ! j) = ?R
        \<and> size_bytes (b1_dev_buffers this ! j) = ?B" if "j < 3" for j
  proof -
    have "j = 0 \<or> j = 1 \<or> j = 2" using that by auto
    then show ?thesis
      using f0(5-7) f1(5-7) f2(5-7) by (auto simp: gate_swap_def)
  qed
  then show "\<forall>j < 3. size_bytes (w_dev_buffers this ! j) = ?W
              \<and> size_bytes (r_dev_buffers this ! j) = ?R
              \<and> size_bytes (b1_dev_buffers this ! j) = ?B"
    by blast
  show "3 * ?W \<le> length (w_host_buffers (params this))"
    "3 * ?R \<le> length (r_host_buffers (params this))"
    "3 * ?B \<le> length (b_host_buffers (params this))"
    using f2(8-10) by simp_all
  show "linear_before_reset (params this) \<and> 2 < length (b2_dev_buffers this) \<longrightarrow>
           size_t_mul ?B 3 + ?B \<le> length (b_host_buffers (params this))"
    using f2(12) by simp
  show "sorted_wrt (\<lambda>a b. \<not> overlap a b) (all_weights_of this)"
    using weightBuffersFit_sound(2) [OF c(6)] .
qed

lemma length_chunk:
  assumes "k < 3" and "3 * n \<le> length buf"
  shows "length (chunk buf n k) = n"
proof -
  have "k = 0 \<or> k = 1 \<or> k = 2"
    using assms(1) by auto
  then show ?thesis
    using assms(2) by (auto simp: chunk_def)
qed

lemma stream_memory:
  assumes init: "initWeightSpace cv vendor this0 buffer = Inr (this, stream)"
      and uni: "direction (params this0) = CUDNN_UNIDIRECTIONAL"
      and fits: "linear_before_reset (params this) \<and> 2 < length (b2_dev_buffers this) \<longrightarrow>
                   bias_chunk_size (params this) \<le> size_bytes (b2_dev_buffers this ! 2)"
      and op: "op \<in> set stream"
  shows "read_dev (run_stream stream mem) (op_region op) = op_bytes op"
proof -
  let ?W = "w_chunk_size (params this)" and ?R = "r_chunk_size (params this)"
  let ?B = "bias_chunk_size (params this)"
  let ?w = "w_dev_buffers this" and ?r = "r_dev_buffers this"
  let ?b1 = "b1_dev_buffers this" and ?b2 = "b2_dev_buffers this"
  note e = initWeightSpace_effect [OF init uni]
  have n: "length ?b2 = 0 \<or> length ?b2 = 2 \<or> length ?b2 = 3"
    using e(6,7) by arith
  have chunks: "length (chunk (w_host_buffers (params this)) ?W k) = ?W"
      "length (chunk (r_host_buffers (params this)) ?R k) = ?R"
      "length (chunk (b_host_buffers (params this)) ?B k) = ?B" if "k < 3" for k
    using that e(9-11) by (simp_all add: length_chunk)
  have sizes: "?w ! j = (data (?w ! j), ?W)" "?r ! j = (data (?r ! j), ?R)"
      "?b1 ! j = (data (?b1 ! j), ?B)" if "j < 3" for j
    using e(8) that by (simp_all add: prod_eq_iff)
  have len: "length stream = length (written_buffers this)"
    unfolding e(1) 
    by (simp add: iteration_ops_def second_bias_ops_def written_buffers_def Let_def)
  have fourth: "length (take ?B (drop (size_t_mul ?B 3) (b_host_buffers (params this)))) = ?B"
    if "linear_before_reset (params this)" "2 < length ?b2"
    using e(12) that by simp
  have inside: "\<forall>(op, buf) \<in> set (zip stream (written_buffers this)).
                   region (op_region op) \<subseteq> region buf"
    using n fits sizes chunks
    unfolding e(1) 
    by (auto simp: iteration_ops_def second_bias_ops_def written_buffers_def Let_def
          gate_swap_def region_def fourth)
  have idxs: "\<exists>idxs. written_buffers this = map ((!) (all_weights_of this)) idxs
                  \<and> distinct idxs \<and> (\<forall>k \<in> set idxs. k < length (all_weights_of this))"
  proof -
    consider "length ?b2 = 0" | "length ?b2 = 2" | "length ?b2 = 3"
      using n by blast
    then show ?thesis
    proof cases
      case 1
      then have "written_buffers this
                   = map ((!) (all_weights_of this)) [1, 7, 4, 0, 6, 3, 2, 8, 5]"
        by (simp add: written_buffers_def all_weights_of_def nth_append e(3-5) gate_swap_def)
      moreover have "length (all_weights_of this) = 9"
        using 1 by (simp add: all_weights_of_def e(3-5))
      ultimately show ?thesis
        by (intro exI [of _ "[1, 7, 4, 0, 6, 3, 2, 8, 5]"]) simp
    next
      case 2
      then have "written_buffers this
                   = map ((!) (all_weights_of this)) [1, 7, 4, 10, 0, 6, 3, 9, 2, 8, 5]"
        by (simp add: written_buffers_def all_weights_of_def nth_append e(3-5) gate_swap_def)
      moreover have "length (all_weights_of this) = 11"
        using 2 by (simp add: all_weights_of_def e(3-5))
      ultimately show ?thesis
        by (intro exI [of _ "[1, 7, 4, 10, 0, 6, 3, 9, 2, 8, 5]"]) simp
    next
      case 3
      then have "written_buffers this
                   = map ((!) (all_weights_of this)) [1, 7, 4, 10, 0, 6, 3, 9, 2, 8, 5, 11]"
        by (simp add: written_buffers_def all_weights_of_def nth_append e(3-5) gate_swap_def)
      moreover have "length (all_weights_of this) = 12"
        using 3 by (simp add: all_weights_of_def e(3-5))
      ultimately show ?thesis
        by (intro exI [of _ "[1, 7, 4, 10, 0, 6, 3, 9, 2, 8, 5, 11]"]) simp
    qed
  qed
  have apart: "sorted_wrt (\<lambda>a b. \<not> overlap a b) (written_buffers this)"
    using idxs apart_at_distinct_indices [OF e(13)] by auto
  obtain buf where pair: "(op, buf) \<in> set (zip stream (written_buffers this))"
    using op len by (metis in_set_impl_in_set_zip1)
  have "read_dev (run_stream (map fst (zip stream (written_buffers this))) mem) (op_region op)
          = op_bytes op"
    using apart inside pair len by (intro read_after_stream [where buf = buf]) simp_all
  then show ?thesis
    using len by simp
qed

lemma example_calculate:
  "calculateWeightBuffers example_converters example_vendor
     (descriptors_of example_cudnn_params example_config example_context 30) 4096
   = Inr example_weight_buffers"
  by (simp add: calculateWeightBuffers_def and_then_def Expects_def Ensures_def throwIfError_def
        example_converters_def example_cudnn_params_def descriptors_of_def
        createRNNDescriptor_def example_config_def example_context_def
        numDirections_def projSize_def lin_layer_count_def upt_rec
        calc_body_def ensures_descriptor_def example_vendor_def
        size_t_mul_def size_t_add_def to_size_t_def
        weightBuffersFit_def at_index_def weightSpaceSize_def fit_loop.simps
        example_weight_buffers_def CUDNN_RNN_PADDED_IO_ENABLED_def)


lemma example_init:
  "initWeightSpace example_converters example_vendor
     (descriptors_of example_cudnn_params example_config example_context 30) 4096
   = Inr (example_weight_buffers, example_stream)"
  unfolding initWeightSpace_def example_calculate
  by (simp add: and_then_def
        example_weight_buffers_def descriptors_of_def example_cudnn_params_def
        numDirections_def lin_layer_count_def upt_rec init_body_def at_index_def Expects_def
        Ensures_def host_read_def gate_swap_def size_t_mul_def size_t_add_def to_size_t_def
        example_stream_def)

text \<open>
  Claim C1. Let the parameters of the object be built by the constructor (so the network is
  unidirectional) and let \<open>initWeightSpace\<close> return. The map \<open>gate_swap\<close> exchanges 0 and
  1, fixes 2 and is its own inverse. For every linear layer \<open>i\<close> of 0, 1, 2 and
  \<open>j = gate_swap i\<close>, the stream receives an upload of the \<open>i\<close>-th chunk of the host W
  buffer to the W device buffer \<open>j\<close>, of the \<open>i\<close>-th chunk of the host R buffer to the R
  device buffer \<open>j\<close> and of the \<open>i\<close>-th chunk of the host bias buffer to the first-bias
  device buffer \<open>j\<close>, each chunk as long as the device buffer. Moreover, provided the
  upload to the second-bias buffer of the hidden gate stays inside that buffer, once the
  stream has run on any device memory these three device buffers hold these three chunks.
\<close>

theorem C1_chunks_go_to_swapped_buffers:
  assumes init: "initWeightSpace cv vendor this0 buffer = Inr (this, stream)"
      and built: "GRUSequenceParamsCuDnn_ctor cv0 gp = Inr (params this0)"
      and i: "i < 3"
  shows "gate_swap 0 = 1 \<and> gate_swap 1 = 0 \<and> gate_swap 2 = 2
       \<and> gate_swap (gate_swap k) = k
       \<and> nat (gate_swap (int i)) < 3
       \<and> Upload (data (w_dev_buffers this ! nat (gate_swap (int i))))
            (chunk (w_host_buffers (params this)) (w_chunk_size (params this)) i) \<in> set stream
       \<and> Upload (data (r_dev_buffers this ! nat (gate_swap (int i))))
            (chunk (r_host_buffers (params this)) (r_chunk_size (params this)) i) \<in> set stream
       \<and> Upload (data (b1_dev_buffers this ! nat (gate_swap (int i))))
            (chunk (b_host_buffers (params this)) (bias_chunk_size (params this)) i) \<in> set stream
       \<and> length (chunk (w_host_buffers (params this)) (w_chunk_size (params this)) i)
            = size_bytes (w_dev_buffers this ! nat (gate_swap (int i)))
       \<and> length (chunk (r_host_buffers (params this)) (r_chunk_size (params this)) i)
            = size_bytes (r_dev_buffers this ! nat (gate_swap (int i)))
       \<and> length (chunk (b_host_buffers (params this)) (bias_chunk_size (params this)) i)
            = size_bytes (b1_dev_buffers this ! nat (gate_swap (int i)))
       \<and> ((linear_before_reset (params this) \<and> 2 < length (b2_dev_buffers this) \<longrightarrow>
              bias_chunk_size (params this) \<le> size_bytes (b2_dev_buffers this ! 2)) \<longrightarrow>
            read_dev (run_stream stream mem) (w_dev_buffers this ! nat (gate_swap (int i)))
              = chunk (w_host_buffers (params this)) (w_chunk_size (params this)) i
          \<and> read_dev (run_stream stream mem) (r_dev_buffers this ! nat (gate_swap (int i)))
              = chunk (r_host_buffers (params this)) (r_chunk_size (params this)) i
          \<and> read_dev (run_stream stream mem) (b1_dev_buffers this ! nat (gate_swap (int i)))
              = chunk (b_host_buffers (params this)) (bias_chunk_size (params this)) i)"
proof -
  note uni = ctor_success(1) [OF built]
  let ?j = "nat (gate_swap (int i))"
  let ?w = "Upload (data (w_dev_buffers this ! ?j))
              (chunk (w_host_buffers (params this)) (w_chunk_size (params this)) i)"
  let ?r = "Upload (data (r_dev_buffers this ! ?j))
              (chunk (r_host_buffers (params this)) (r_chunk_size (params this)) i)"
  let ?b = "Upload (data (b1_dev_buffers this ! ?j))
              (chunk (b_host_buffers (params this)) (bias_chunk_size (params this)) i)"
  let ?cw = "chunk (w_host_buffers (params this)) (w_chunk_size (params this)) i"
  let ?cr = "chunk (r_host_buffers (params this)) (r_chunk_size (params this)) i"
  let ?cb = "chunk (b_host_buffers (params this)) (bias_chunk_size (params this)) i"
  note e = initWeightSpace_effect [OF init uni]
  have cases_i: "i = 0 \<or> i = 1 \<or> i = 2"
    using i by auto
  have j: "?j < 3"
    using cases_i by (auto simp: gate_swap_def)
  have in_iteration:
    "?w \<in> set (iteration_ops this (w_chunk_size (params this)) (r_chunk_size (params this))
                  (bias_chunk_size (params this)) i)"
    "?r \<in> set (iteration_ops this (w_chunk_size (params this)) (r_chunk_size (params this))
                  (bias_chunk_size (params this)) i)"
    "?b \<in> set (iteration_ops this (w_chunk_size (params this)) (r_chunk_size (params this))
                  (bias_chunk_size (params this)) i)"
    by (simp_all add: iteration_ops_def Let_def)
  have iteration: "set (iteration_ops this (w_chunk_size (params this))
                     (r_chunk_size (params this)) (bias_chunk_size (params this)) i) \<subseteq> set stream"
    using cases_i by (subst e(1)) auto
  have uploads: "?w \<in> set stream" "?r \<in> set stream" "?b \<in> set stream"
    using in_iteration iteration by blast+
  have sizes: "size_bytes (w_dev_buffers this ! ?j) = w_chunk_size (params this)"
    "size_bytes (r_dev_buffers this ! ?j) = r_chunk_size (params this)"
    "size_bytes (b1_dev_buffers this ! ?j) = bias_chunk_size (params this)"
    using e(8) j by blast+
  have lengths: "length ?cw = size_bytes (w_dev_buffers this ! ?j)"
    "length ?cr = size_bytes (r_dev_buffers this ! ?j)"
    "length ?cb = size_bytes (b1_dev_buffers this ! ?j)"
    unfolding sizes
    by (rule length_chunk [OF i e(9)], rule length_chunk [OF i e(10)],
        rule length_chunk [OF i e(11)])
  have regions: "op_region ?w = w_dev_buffers this ! ?j" "op_region ?r = r_dev_buffers this ! ?j"
    "op_region ?b = b1_dev_buffers this ! ?j"
    unfolding op_region.simps lengths by simp_all
  have memory:
    "read_dev (run_stream stream mem) (w_dev_buffers this ! ?j) = ?cw
     \<and> read_dev (run_stream stream mem) (r_dev_buffers this ! ?j) = ?cr
     \<and> read_dev (run_stream stream mem) (b1_dev_buffers this ! ?j) = ?cb"
    if fits: "linear_before_reset (params this) \<and> 2 < length (b2_dev_buffers this) \<longrightarrow>
              bias_chunk_size (params this) \<le> size_bytes (b2_dev_buffers this ! 2)"
    using stream_memory [OF init uni fits uploads(1), of mem]
      stream_memory [OF init uni fits uploads(2), of mem]
      stream_memory [OF init uni fits uploads(3), of mem]
    unfolding regions op_bytes.simps by blast
  have swap: "gate_swap 0 = 1 \<and> gate_swap 1 = 0 \<and> gate_swap 2 = 2 \<and> gate_swap (gate_swap k) = k"
    by (simp add: gate_swap_def)
  show ?thesis
    using swap j uploads lengths memory by blast
qed

theorem C1_chunks_go_to_swapped_buffers_witness:
  "Upload 4100 [1, 2, 3, 4] \<in> set example_stream
   \<and> Upload 4110 [21, 22] \<in> set example_stream
   \<and> Upload 4116 [31, 32] \<in> set example_stream
   \<and> read_dev (run_stream example_stream blank_memory) (4100, 4) = [1, 2, 3, 4]
   \<and> read_dev (run_stream example_stream blank_memory) (4110, 2) = [21, 22]
   \<and> read_dev (run_stream example_stream blank_memory) (4116, 2) = [31, 32]"
proof -
  have built: "GRUSequenceParamsCuDnn_ctor example_converters example_params
                 = Inr (params (descriptors_of example_cudnn_params example_config
                                  example_context 30))"
    using example_ctor by (simp add: descriptors_of_def)
  have vals: "linear_before_reset (params example_weight_buffers)"
    "bias_chunk_size (params example_weight_buffers) = 2"
    "w_chunk_size (params example_weight_buffers) = 4"
    "r_chunk_size (params example_weight_buffers) = 2"
    "b2_dev_buffers example_weight_buffers ! 2 = (4124, 2)"
    "w_dev_buffers example_weight_buffers = [(4096, 4), (4100, 4), (4104, 4)]"
    "r_dev_buffers example_weight_buffers = [(4108, 2), (4110, 2), (4112, 2)]"
    "b1_dev_buffers example_weight_buffers = [(4114, 2), (4116, 2), (4118, 2)]"
    "chunk (w_host_buffers (params example_weight_buffers)) 4 0 = [1, 2, 3, 4]"
    "chunk (r_host_buffers (params example_weight_buffers)) 2 0 = [21, 22]"
    "chunk (b_host_buffers (params example_weight_buffers)) 2 0 = [31, 32]"
    by (simp_all add: descriptors_of_def example_cudnn_params_def example_weight_buffers_def
          bias_chunk_size_def w_chunk_size_def r_chunk_size_def size_t_mul_def to_size_t_def
          chunk_def)
  have zero: "(0::nat) < 3"
    by simp
  show ?thesis
    using C1_chunks_go_to_swapped_buffers [OF example_init built zero, of 0 blank_memory]
    by (simp add: vals gate_swap_def)
qed

text \<open>
  Claim C4. The bias mode of the RNN descriptor is the double-bias mode when
  \<open>linear_before_reset\<close> is true and the single-input-bias mode when it is false. Let the
  parameters of the object be built by the constructor, let the size of the host bias
  buffer be a \<open>size_t\<close> value and let \<open>initWeightSpace\<close> return. Then for every second-bias
  device buffer \<open>k\<close>: when \<open>linear_before_reset\<close> is true and \<open>k = 2\<close> (the hidden gate), the
  stream receives an upload to that buffer of the fourth chunk of the host bias buffer,
  and otherwise a fill of the whole buffer with zero. Moreover, provided the upload stays
  inside its buffer, once the stream has run on any device memory the buffer of the hidden
  gate starts with that chunk and every other second-bias buffer is zero.
\<close>

theorem C4_second_bias_of_the_hidden_gate:
  assumes init: "initWeightSpace cv vendor this0 buffer = Inr (this, stream)"
      and built: "GRUSequenceParamsCuDnn_ctor cv0 gp = Inr (params this0)"
      and host: "length (b_host_buffers (params this0)) < 2 ^ 64"
      and k: "k < length (b2_dev_buffers this)"
  shows "biasMode (createRNNDescriptor p cfg context)
           = (if linear_before_reset p then CUDNN_RNN_DOUBLE_BIAS else CUDNN_RNN_SINGLE_INP_BIAS)
       \<and> (if linear_before_reset (params this) \<and> k = 2
          then Upload (data (b2_dev_buffers this ! 2))
                 (chunk (b_host_buffers (params this)) (bias_chunk_size (params this)) 3)
                 \<in> set stream
             \<and> length (chunk (b_host_buffers (params this)) (bias_chunk_size (params this)) 3)
                 = bias_chunk_size (params this)
          else Memset (data (b2_dev_buffers this ! k)) 0 (size_bytes (b2_dev_buffers this ! k))
                 \<in> set stream)
       \<and> ((linear_before_reset (params this) \<and> 2 < length (b2_dev_buffers this) \<longrightarrow>
              bias_chunk_size (params this) \<le> size_bytes (b2_dev_buffers this ! 2)) \<longrightarrow>
           (if linear_before_reset (params this) \<and> k = 2
            then read_dev (run_stream stream mem)
                   (data (b2_dev_buffers this ! 2), bias_chunk_size (params this))
                   = chunk (b_host_buffers (params this)) (bias_chunk_size (params this)) 3
            else read_dev (run_stream stream mem) (b2_dev_buffers this ! k)
                   = replicate (size_bytes (b2_dev_buffers this ! k)) 0))"
proof -
  note uni = ctor_success(1) [OF built]
  let ?B = "bias_chunk_size (params this)"
  let ?b2 = "b2_dev_buffers this"
  let ?host = "b_host_buffers (params this)"
  let ?i = "nat (gate_swap (int k))"
  let ?op = "if linear_before_reset (params this) \<and> k = 2
             then Upload (data (?b2 ! 2)) (chunk ?host ?B 3)
             else Memset (data (?b2 ! k)) 0 (size_bytes (?b2 ! k))"
  note e = initWeightSpace_effect [OF init uni]
  have bias: "biasMode (createRNNDescriptor p cfg context)
           = (if linear_before_reset p then CUDNN_RNN_DOUBLE_BIAS else CUDNN_RNN_SINGLE_INP_BIAS)"
    by (simp add: createRNNDescriptor_def Let_def)
  have cases_k: "k = 0 \<or> k = 1 \<or> k = 2"
    using k e(6) by arith
  have i: "?i < 3" "?i < length ?b2" "nat (gate_swap (int ?i)) = k"
    using cases_k k e(7) by (auto simp: gate_swap_def)
  have cases_i: "?i = 0 \<or> ?i = 1 \<or> ?i = 2"
    using i(1) by arith
  have offset: "size_t_mul ?B 3 = 3 * ?B"
    using e(11) host e(2) by (simp add: size_t_mul_def mult.commute)
  have fourth: "take ?B (drop (size_t_mul ?B 3) ?host) = chunk ?host ?B 3"
    by (simp add: offset chunk_def)
  have "set (second_bias_ops this ?B ?i) = {?op}"
    using i(2,3) cases_k by (auto simp: second_bias_ops_def Let_def fourth gate_swap_def)
  then have "?op \<in> set (iteration_ops this (w_chunk_size (params this))
                           (r_chunk_size (params this)) ?B ?i)"
    by (simp add: iteration_ops_def Let_def)
  moreover have "set (iteration_ops this (w_chunk_size (params this))
                   (r_chunk_size (params this)) ?B ?i) \<subseteq> set stream"
    using cases_i by (subst e(1)) auto
  ultimately have op: "?op \<in> set stream"
    by blast
  have len: "length (chunk ?host ?B 3) = ?B"
    if "linear_before_reset (params this)" "k = 2"
    using e(12) that k by (simp add: offset chunk_def)
  have "read_dev (run_stream stream mem) (op_region ?op) = op_bytes ?op"
    if "linear_before_reset (params this) \<and> 2 < length ?b2 \<longrightarrow> ?B \<le> size_bytes (?b2 ! 2)"
    using that by (rule stream_memory [OF init uni _ op])
  then have memory:
    "(linear_before_reset (params this) \<and> 2 < length ?b2 \<longrightarrow> ?B \<le> size_bytes (?b2 ! 2))
       \<longrightarrow> read_dev (run_stream stream mem) (op_region ?op) = op_bytes ?op"
    by blast
  show ?thesis
  proof (cases "linear_before_reset (params this) \<and> k = 2")
    case True
    note length_fourth = len [OF True [THEN conjunct1] True [THEN conjunct2]]
    show ?thesis
      using bias op memory length_fourth unfolding if_P [OF True]
      by (simp add: length_fourth)
  next
    case False
    show ?thesis
      using bias op memory unfolding if_not_P [OF False]
      by simp
  qed
qed

theorem C4_second_bias_of_the_hidden_gate_witness:
  "Upload 4124 [37, 38] \<in> set example_stream
   \<and> read_dev (run_stream example_stream blank_memory) (4124, 2) = [37, 38]"
proof -
  have built: "GRUSequenceParamsCuDnn_ctor example_converters example_params
                 = Inr (params (descriptors_of example_cudnn_params example_config
                                  example_context 30))"
    using example_ctor by (simp add: descriptors_of_def)
  have host: "length (b_host_buffers (params (descriptors_of example_cudnn_params
                 example_config example_context 30))) < 2 ^ 64"
    and k: "2 < length (b2_dev_buffers example_weight_buffers)"
    by (simp_all add: descriptors_of_def example_cudnn_params_def example_weight_buffers_def)
  have vals: "linear_before_reset (params example_weight_buffers)"
    "bias_chunk_size (params example_weight_buffers) = 2"
    "b2_dev_buffers example_weight_buffers ! 2 = (4124, 2)"
    "chunk (b_host_buffers (params example_weight_buffers)) 2 3 = [37, 38]"
    by (simp_all add: descriptors_of_def example_cudnn_params_def example_weight_buffers_def
          bias_chunk_size_def size_t_mul_def to_size_t_def chunk_def)
  show ?thesis
    using C4_second_bias_of_the_hidden_gate [OF example_init built host k,
        of example_cudnn_params example_config example_context blank_memory]
    by (simp add: vals k)
qed

end
